theory Spec2Isabelle
  imports Complex_Main
begin

chapter \<open>The model\<close>

section \<open>Strings\<close>

text \<open>
  Addresses are JavaScript strings. They are modelled as \<open>string\<close>, one \<open>char\<close> per
  code point below 256 (hexadecimal addresses are plain ASCII). On that range
  \<open>String.prototype.toLowerCase\<close> moves \<open>A\<close>..\<open>Z\<close> and the upper-case letters of
  Latin-1 (192..214, 216..222) 32 places up and leaves every other character alone.
\<close>

definition is_upper :: "char \<Rightarrow> bool" where
  "is_upper c =
     (let n = (of_char c :: nat)
      in (65 \<le> n \<and> n \<le> 90) \<or> (192 \<le> n \<and> n \<le> 214) \<or> (216 \<le> n \<and> n \<le> 222))"

definition lower_char :: "char \<Rightarrow> char" where
  "lower_char c = (if is_upper c then char_of (of_char c + 32 :: nat) else c)"

definition toLowerCase :: "string \<Rightarrow> string" where
  "toLowerCase s = map lower_char s"

section \<open>Data model (types/graph/index.ts)\<close>

datatype group = MainGroup | OtherGroup

text \<open>
  \<open>Node\<close>: the simulator's position fields \<open>x\<close>, \<open>y\<close>, \<open>fx\<close>, \<open>fy\<close> are floating point
  values written by d3-force; nothing below reads them, so they are left out.
\<close>

record node =
  node_id :: string
  node_group :: group

text \<open>
  \<open>Edge.types\<close> is a \<open>Record<string, number>\<close>. It is kept as the list that
  \<open>Object.entries\<close> enumerates, keys in the object's own order; a JavaScript object has
  no repeated key, which is \<open>wf_types\<close>. \<open>None\<close> is the missing field that the
  builder guards with \<open>edge.types || {}\<close>.
\<close>

record edge =
  edge_source :: string
  edge_target :: string
  edge_types :: "(string \<times> nat) list option"

definition wf_types :: "edge \<Rightarrow> bool" where
  "wf_types e = (case edge_types e of None \<Rightarrow> True | Some ts \<Rightarrow> distinct (map fst ts))"

text \<open>\<open>Link.source\<close> and \<open>Link.target\<close> have type \<open>string | Node\<close>.\<close>

datatype endpoint = Str string | Obj node

record link =
  link_source :: endpoint
  link_target :: endpoint
  link_type :: string
  link_count :: nat

text \<open>
  \<open>GraphData\<close>: \<open>edges = None\<close> is the missing field guarded by \<open>data.edges || []\<close>.
  The optional name table and block range do not reach nodes or links.
\<close>

record graph_data =
  address :: string
  edges :: "edge list option"

section \<open>The graph-model builder inside drawGraph\<close>

text \<open>\<open>Object.entries(edge.types || {}).map(([type, count]) => ({source, target, type, count}))\<close>\<close>

definition entries :: "edge \<Rightarrow> (string \<times> nat) list" where
  "entries e = (case edge_types e of None \<Rightarrow> [] | Some ts \<Rightarrow> ts)"

definition edge_links :: "edge \<Rightarrow> link list" where
  "edge_links e =
     map (\<lambda>(t, c). \<lparr>link_source = Str (edge_source e), link_target = Str (edge_target e),
                     link_type = t, link_count = c\<rparr>)
         (entries e)"

text \<open>\<open>(data.edges || []).flatMap(...)\<close>\<close>

definition edges_or_empty :: "graph_data \<Rightarrow> edge list" where
  "edges_or_empty d = (case edges d of None \<Rightarrow> [] | Some es \<Rightarrow> es)"

definition build_links :: "graph_data \<Rightarrow> link list" where
  "build_links d = concat (map edge_links (edges_or_empty d))"

text \<open>
  \<open>new Set<string>()\<close> with \<open>add\<close>: a JavaScript \<open>Set\<close> compares strings exactly and
  iterates in insertion order, so it is the list of its members in the order they were
  first added.
\<close>

definition set_add :: "string list \<Rightarrow> string \<Rightarrow> string list" where
  "set_add s x = (if x \<in> set s then s else s @ [x])"

text \<open>\<open>typeof l.source === "string" ? l.source : l.source.id\<close>\<close>

fun endpoint_key :: "endpoint \<Rightarrow> string" where
  "endpoint_key (Str s) = s"
| "endpoint_key (Obj n) = node_id n"

definition nodeSet_step :: "string list \<Rightarrow> link \<Rightarrow> string list" where
  "nodeSet_step s l =
     set_add (set_add s (endpoint_key (link_source l))) (endpoint_key (link_target l))"

definition build_nodeSet :: "link list \<Rightarrow> string list" where
  "build_nodeSet ls = foldl nodeSet_step [] ls"

text \<open>\<open>group: id.toLowerCase() === data.address.toLowerCase() ? "main" : "other"\<close>\<close>

definition make_node :: "graph_data \<Rightarrow> string \<Rightarrow> node" where
  "make_node d i =
     \<lparr>node_id = i,
      node_group = (if toLowerCase i = toLowerCase (address d) then MainGroup else OtherGroup)\<rparr>"

definition build_nodes :: "graph_data \<Rightarrow> node list" where
  "build_nodes d = map (make_node d) (build_nodeSet (build_links d))"

text \<open>
  The empty-result overlay of the component's render:
  \<open>jsonData && jsonData.edges && jsonData.edges.length === 0\<close>.
\<close>

definition shows_empty_message :: "graph_data option \<Rightarrow> bool" where
  "shows_empty_message jsonData =
     (case jsonData of None \<Rightarrow> False
      | Some d \<Rightarrow> (case edges d of None \<Rightarrow> False | Some es \<Rightarrow> length es = 0))"

section \<open>Specification-side notions for the builder\<close>

text \<open>The endpoint addresses of the edges that carry at least one interaction kind, in order.\<close>

definition edge_endpoints :: "graph_data \<Rightarrow> string list" where
  "edge_endpoints d =
     concat (map (\<lambda>e. [edge_source e, edge_target e])
                 (filter (\<lambda>e. entries e \<noteq> []) (edges_or_empty d)))"

text \<open>A list cut down to the first occurrence of each member, order kept.\<close>

definition first_occurrences :: "'a list \<Rightarrow> 'a list" where
  "first_occurrences xs = rev (remdups (rev xs))"

text \<open>The number of interaction kinds of an edge: the keys of its types map.\<close>

definition num_kinds :: "edge \<Rightarrow> nat" where
  "num_kinds e = card (fst ` set (entries e))"

section \<open>Auxiliary notions for the builder\<close>

text \<open>What one edge adds to the node set: nothing without interaction kinds, else both endpoints.\<close>

definition edge_step :: "string list \<Rightarrow> edge \<Rightarrow> string list" where
  "edge_step s e =
     (if entries e = [] then s else set_add (set_add s (edge_source e)) (edge_target e))"


text \<open>The payload of the specification's scenario: one edge, one interaction kind.\<close>

definition single_edge_payload :: graph_data where
  "single_edge_payload =
     \<lparr>address = ''0xAAA'',
      edges = Some [\<lparr>edge_source = ''0xAAA'', edge_target = ''0xBBB'',
                     edge_types = Some [(''call'', 3)]\<rparr>]\<rparr>"

text \<open>A payload that spells one address in two casings.\<close>

definition mixed_case_payload :: graph_data where
  "mixed_case_payload =
     \<lparr>address = ''0xa'',
      edges = Some [\<lparr>edge_source = ''0xA'', edge_target = ''0xa'',
                     edge_types = Some [(''call'', 1)]\<rparr>]\<rparr>"

section \<open>The rendered scene\<close>

text \<open>
  What drawGraph leaves under the \<open>svg\<close> element, in document order. An element keeps
  its tag, its class tokens, the datum d3 bound to it and the four presentation
  attributes that the highlight effect writes; \<open>None\<close> is an attribute that is not set.
  Addresses are taken to be free of white space and of characters with a meaning in a
  CSS selector (they are hexadecimal strings), so a class token and a class selector
  built from an address compare as strings.
\<close>

datatype tag = Rect | G | Line | Circle | Text

datatype datum = NoDatum | NodeDatum node | LinkDatum link

record element =
  tag :: tag
  classes :: "string list"
  datum :: datum
  opacity :: "real option"
  stroke_width :: "real option"
  stroke_opacity :: "real option"
  stroke :: "string option"

type_synonym scene = "element list"

datatype error = NodeNotFound string | TypeError

definition plain :: "tag \<Rightarrow> element" where
  "plain t = \<lparr>tag = t, classes = [], datum = NoDatum, opacity = None, stroke_width = None,
              stroke_opacity = None, stroke = None\<rparr>"

subsection \<open>Link initialisation of d3-force\<close>

text \<open>
  Registering \<open>forceLink(links).id(d => d.id)\<close> on the simulation replaces every
  endpoint that is not an object by the node with that id, and throws
  \<open>node not found\<close> when there is none. It runs before the lines are created.
\<close>

fun resolve :: "node list \<Rightarrow> endpoint \<Rightarrow> error + endpoint" where
  "resolve ns (Obj n) = Inr (Obj n)"
| "resolve ns (Str s) =
     (case find (\<lambda>n. node_id n = s) ns of
        None \<Rightarrow> Inl (NodeNotFound s)
      | Some n \<Rightarrow> Inr (Obj n))"

fun forceLink_init :: "node list \<Rightarrow> link list \<Rightarrow> error + link list" where
  "forceLink_init ns [] = Inr []"
| "forceLink_init ns (l # ls) =
     (case resolve ns (link_source l) of
        Inl err \<Rightarrow> Inl err
      | Inr src \<Rightarrow>
          (case resolve ns (link_target l) of
             Inl err \<Rightarrow> Inl err
           | Inr tgt \<Rightarrow>
               (case forceLink_init ns ls of
                  Inl err \<Rightarrow> Inl err
                | Inr ls' \<Rightarrow> Inr (l\<lparr>link_source := src, link_target := tgt\<rparr> # ls'))))"

subsection \<open>The elements drawGraph creates\<close>

text \<open>
  The id expression shared by the class callback of the lines and the stroke callback
  of the highlight effect:
  \<open>typeof d.source === "object" && d.source.id ? d.source.id.toLowerCase()
     : typeof d.source === "string" ? d.source.toLowerCase() : ""\<close>.
\<close>

fun endpoint_lower :: "endpoint \<Rightarrow> string" where
  "endpoint_lower (Obj n) = (if node_id n \<noteq> [] then toLowerCase (node_id n) else [])"
| "endpoint_lower (Str s) = toLowerCase s"

text \<open>The class names \<open>`link-${id}`\<close> and \<open>`node-${id}`\<close>.\<close>

definition link_class :: "string \<Rightarrow> string" where
  "link_class i = ''link-'' @ i"

definition node_class :: "string \<Rightarrow> string" where
  "node_class i = ''node-'' @ i"

definition line_el :: "link \<Rightarrow> element" where
  "line_el l =
     (plain Line)\<lparr>classes := [link_class (endpoint_lower (link_source l)),
                               link_class (endpoint_lower (link_target l))],
                   datum := LinkDatum l,
                   stroke_width := Some (sqrt (real (link_count l)))\<rparr>"

text \<open>A flow dot; \<open>animateFlowDots\<close> sets its opacity attribute as soon as it is drawn.\<close>

definition flow_dot_el :: "link \<Rightarrow> element" where
  "flow_dot_el l =
     (plain Circle)\<lparr>classes := [''flow-dot''], datum := LinkDatum l, opacity := Some 0.7\<rparr>"

definition node_el :: "node \<Rightarrow> element" where
  "node_el n =
     (plain Circle)\<lparr>classes := [node_class (toLowerCase (node_id n))], datum := NodeDatum n\<rparr>"

definition label_el :: "node \<Rightarrow> element" where
  "label_el n = (plain Text)\<lparr>datum := NodeDatum n\<rparr>"

definition link_layer :: element where
  "link_layer = (plain G)\<lparr>stroke := Some ''#999'', stroke_opacity := Some 0.6\<rparr>"

definition flow_dots_layer :: element where
  "flow_dots_layer = (plain G)\<lparr>classes := [''flow-dots-layer'']\<rparr>"

definition node_layer :: element where
  "node_layer = (plain G)\<lparr>stroke := Some ''#fff'', stroke_width := Some 0.2\<rparr>"

definition scene_of :: "node list \<Rightarrow> link list \<Rightarrow> scene" where
  "scene_of ns ls =
     [plain Rect, plain G, link_layer] @ map line_el ls
     @ [flow_dots_layer] @ map flow_dot_el ls
     @ [node_layer] @ map node_el ns
     @ [plain G] @ map label_el ns"

text \<open>The body of drawGraph past its guards: build the model, start the simulation, draw.\<close>

definition draw_scene :: "graph_data \<Rightarrow> error + scene" where
  "draw_scene d =
     (let links = build_links d;
          nodes = build_nodes d
      in case forceLink_init nodes links of
           Inl err \<Rightarrow> Inl err
         | Inr links' \<Rightarrow> Inr (scene_of nodes links'))"

section \<open>The highlight effect\<close>

text \<open>
  The selectors the effect uses: \<open>"circle"\<close> and \<open>"line"\<close> (by tag),
  \<open>".node-<a>"\<close> (by class) and \<open>"line.link-<a>"\<close> (by tag and class).
\<close>

datatype selector = ByTag tag | ByClass string | ByTagClass tag string

fun matches :: "selector \<Rightarrow> element \<Rightarrow> bool" where
  "matches (ByTag t) e = (tag e = t)"
| "matches (ByClass c) e = (c \<in> set (classes e))"
| "matches (ByTagClass t c) e = (tag e = t \<and> c \<in> set (classes e))"

text \<open>\<open>selectAll(sel).attr(name, constant)\<close>, possibly chained.\<close>

definition attr_all :: "selector \<Rightarrow> (element \<Rightarrow> element) \<Rightarrow> scene \<Rightarrow> scene" where
  "attr_all sel f s = map (\<lambda>e. if matches sel e then f e else e) s"

text \<open>
  \<open>selectAll(sel).attr("stroke", callback)\<close>: the callback reads \<open>d.source\<close>, which
  throws a \<open>TypeError\<close> on an element without datum.
\<close>

fun attr_stroke :: "(datum \<Rightarrow> error + string) \<Rightarrow> selector \<Rightarrow> scene \<Rightarrow> error + scene" where
  "attr_stroke f sel [] = Inr []"
| "attr_stroke f sel (e # es) =
     (if matches sel e then
        (case f (datum e) of
           Inl err \<Rightarrow> Inl err
         | Inr c \<Rightarrow>
             (case attr_stroke f sel es of
                Inl err \<Rightarrow> Inl err
              | Inr es' \<Rightarrow> Inr (e\<lparr>stroke := Some c\<rparr> # es')))
      else
        (case attr_stroke f sel es of
           Inl err \<Rightarrow> Inl err
         | Inr es' \<Rightarrow> Inr (e # es')))"

definition direct_color :: string where
  "direct_color = ''#ff6666''"

definition transitive_color :: string where
  "transitive_color = ''#ff9933''"

definition color_of :: "graph_data \<Rightarrow> string \<Rightarrow> string \<Rightarrow> string" where
  "color_of d sourceId targetId =
     (if sourceId = toLowerCase (address d) \<or> targetId = toLowerCase (address d)
      then direct_color else transitive_color)"

text \<open>
  The stroke callback. On a node datum \<open>d.source\<close> and \<open>d.target\<close> are undefined, so
  both ids are the empty string.
\<close>

fun edge_color :: "graph_data \<Rightarrow> datum \<Rightarrow> error + string" where
  "edge_color d NoDatum = Inl TypeError"
| "edge_color d (NodeDatum n) = Inr (color_of d [] [])"
| "edge_color d (LinkDatum l) =
     Inr (color_of d (endpoint_lower (link_source l)) (endpoint_lower (link_target l)))"

text \<open>The first half of the effect: every circle and every line back to the defaults.\<close>

definition reset_defaults :: "scene \<Rightarrow> scene" where
  "reset_defaults s =
     attr_all (ByTag Line) (\<lambda>e. e\<lparr>stroke_opacity := Some 0.6, stroke := Some ''#999''\<rparr>)
       (attr_all (ByTag Circle) (\<lambda>e. e\<lparr>opacity := Some 1, stroke_width := Some 1.5\<rparr>) s)"

text \<open>The second half, under \<open>if (highlightAddress)\<close>.\<close>

definition apply_focus :: "graph_data \<Rightarrow> string \<Rightarrow> scene \<Rightarrow> error + scene" where
  "apply_focus d a s =
     (let s1 = attr_all (ByTag Circle) (\<lambda>e. e\<lparr>opacity := Some 0.2\<rparr>) s;
          s2 = attr_all (ByTag Line) (\<lambda>e. e\<lparr>stroke_opacity := Some 0.1\<rparr>) s1;
          s3 = attr_all (ByClass (node_class a))
                 (\<lambda>e. e\<lparr>opacity := Some 1, stroke_width := Some 3\<rparr>) s2;
          s4 = attr_all (ByTagClass Line (link_class a)) (\<lambda>e. e\<lparr>stroke_opacity := Some 1\<rparr>) s3
      in attr_stroke (edge_color d) (ByTagClass Line (link_class a)) s4)"

text \<open>
  The effect. \<open>svg = None\<close> is \<open>svgRef.current === null\<close>; a \<open>highlightAddress\<close> that
  is \<open>null\<close> or the empty string is falsy.
\<close>

definition highlight_effect ::
  "scene option \<Rightarrow> graph_data option \<Rightarrow> string option \<Rightarrow> error + scene option" where
  "highlight_effect svg jsonData highlightAddress =
     (case svg of
        None \<Rightarrow> Inr svg
      | Some s \<Rightarrow>
          (case jsonData of
             None \<Rightarrow> Inr svg
           | Some d \<Rightarrow>
               (case highlightAddress of
                  None \<Rightarrow> Inr (Some (reset_defaults s))
                | Some a \<Rightarrow>
                    if a = [] then Inr (Some (reset_defaults s))
                    else (case apply_focus d a (reset_defaults s) of
                            Inl err \<Rightarrow> Inl err
                          | Inr s' \<Rightarrow> Inr (Some s')))))"

text \<open>A payload drawn and the effect run on it, as on mount with a focus address.\<close>

definition render_focus :: "graph_data \<Rightarrow> string option \<Rightarrow> error + scene option" where
  "render_focus d h =
     (case draw_scene d of
        Inl err \<Rightarrow> Inl err
      | Inr s \<Rightarrow> highlight_effect (Some s) (Some d) h)"

text \<open>
  How a focus address comes about: the click handler of a row of the link table,
  \<open>highlightAddress === edge.target.toLowerCase() ? setHighlightAddress(null)
     : setHighlightAddress(edge.target.toLowerCase())\<close>.
  Every other call of \<open>setHighlightAddress\<close> passes \<open>null\<close>.
\<close>

definition row_click :: "string option \<Rightarrow> string \<Rightarrow> string option" where
  "row_click highlightAddress target =
     (if highlightAddress = Some (toLowerCase target) then None else Some (toLowerCase target))"

subsection \<open>Reading a scene\<close>

definition is_node_circle :: "element \<Rightarrow> bool" where
  "is_node_circle e = (tag e = Circle \<and> (case datum e of NodeDatum n \<Rightarrow> True | _ \<Rightarrow> False))"

definition node_circles :: "scene \<Rightarrow> element list" where
  "node_circles s = filter is_node_circle s"

definition link_lines :: "scene \<Rightarrow> element list" where
  "link_lines s = filter (\<lambda>e. tag e = Line) s"

text \<open>What the claims say about a focused graph, in terms of the payload's nodes and links.\<close>

definition touches :: "string \<Rightarrow> link \<Rightarrow> bool" where
  "touches a l =
     (toLowerCase (endpoint_key (link_source l)) = toLowerCase a
      \<or> toLowerCase (endpoint_key (link_target l)) = toLowerCase a)"

definition is_direct :: "graph_data \<Rightarrow> link \<Rightarrow> bool" where
  "is_direct d l =
     (toLowerCase (endpoint_key (link_source l)) = toLowerCase (address d)
      \<or> toLowerCase (endpoint_key (link_target l)) = toLowerCase (address d))"

definition focused_node_opacity :: "string \<Rightarrow> node \<Rightarrow> real option" where
  "focused_node_opacity a n = Some (if toLowerCase (node_id n) = toLowerCase a then 1 else 0.2)"

definition focused_link_opacity :: "string \<Rightarrow> link \<Rightarrow> real option" where
  "focused_link_opacity a l = Some (if touches a l then 1 else 0.1)"

definition focused_link_color :: "graph_data \<Rightarrow> string \<Rightarrow> link \<Rightarrow> string option" where
  "focused_link_color d a l =
     Some (if touches a l then (if is_direct d l then direct_color else transitive_color)
           else ''#999'')"

text \<open>What can be seen of the result of the effect; \<open>None\<close> when it threw.\<close>

definition observe :: "(scene \<Rightarrow> 'a) \<Rightarrow> error + scene option \<Rightarrow> 'a option" where
  "observe f r = (case r of Inl err \<Rightarrow> None | Inr None \<Rightarrow> None | Inr (Some s) \<Rightarrow> Some (f s))"

definition node_opacities :: "error + scene option \<Rightarrow> real option list option" where
  "node_opacities r = observe (\<lambda>s. map opacity (node_circles s)) r"

definition link_opacities :: "error + scene option \<Rightarrow> real option list option" where
  "link_opacities r = observe (\<lambda>s. map stroke_opacity (link_lines s)) r"

definition link_colors :: "error + scene option \<Rightarrow> string option list option" where
  "link_colors r = observe (\<lambda>s. map stroke (link_lines s)) r"

definition node_data :: "error + scene option \<Rightarrow> datum list option" where
  "node_data r = observe (\<lambda>s. map datum (node_circles s)) r"

section \<open>Auxiliary notions for the scene\<close>

text \<open>The links as d3-force leaves them: both endpoints replaced by the built nodes.\<close>

definition link_objs :: "graph_data \<Rightarrow> link \<Rightarrow> link" where
  "link_objs d l =
     l\<lparr>link_source := Obj (make_node d (endpoint_key (link_source l))),
       link_target := Obj (make_node d (endpoint_key (link_target l)))\<rparr>"

subsection \<open>The effect, element by element\<close>

text \<open>The reset, the dimming and highlighting, and the stroke callback, each on one element.\<close>

definition reset_elem :: "element \<Rightarrow> element" where
  "reset_elem e =
     (if tag e = Circle then e\<lparr>opacity := Some 1, stroke_width := Some 1.5\<rparr>
      else if tag e = Line then e\<lparr>stroke_opacity := Some 0.6, stroke := Some ''#999''\<rparr>
      else e)"

definition dim_elem :: "string \<Rightarrow> element \<Rightarrow> element" where
  "dim_elem a e =
     (let e1 = (if tag e = Circle then e\<lparr>opacity := Some 0.2\<rparr> else e);
          e2 = (if tag e = Line then e1\<lparr>stroke_opacity := Some 0.1\<rparr> else e1);
          e3 = (if node_class a \<in> set (classes e)
                then e2\<lparr>opacity := Some 1, stroke_width := Some 3\<rparr> else e2)
      in if tag e = Line \<and> link_class a \<in> set (classes e)
         then e3\<lparr>stroke_opacity := Some 1\<rparr> else e3)"

definition stroke_elem :: "graph_data \<Rightarrow> string \<Rightarrow> element \<Rightarrow> element" where
  "stroke_elem d a e =
     (if matches (ByTagClass Line (link_class a)) e
      then (case edge_color d (datum e) of Inr c \<Rightarrow> e\<lparr>stroke := Some c\<rparr> | Inl err \<Rightarrow> e)
      else e)"

text \<open>The whole effect under a focus address on one element.\<close>

definition focus_elem :: "graph_data \<Rightarrow> string \<Rightarrow> element \<Rightarrow> element" where
  "focus_elem d a e = stroke_elem d a (dim_elem a (reset_elem e))"

text \<open>No line that the stroke callback reaches is without datum.\<close>

definition no_throw :: "string \<Rightarrow> scene \<Rightarrow> bool" where
  "no_throw a s =
     (\<forall>e \<in> set s. matches (ByTagClass Line (link_class a)) e \<longrightarrow> datum e \<noteq> NoDatum)"

text \<open>The stroke a line with the focus class gets.\<close>

definition hit_color :: "graph_data \<Rightarrow> datum \<Rightarrow> string option \<Rightarrow> string option" where
  "hit_color d x old = (case edge_color d x of Inr c \<Rightarrow> Some c | Inl err \<Rightarrow> old)"

text \<open>The scene of the single-edge payload, freshly drawn and under focus \<open>0xbbb\<close>.\<close>

definition single_edge_scene :: scene where
  "single_edge_scene =
     scene_of (build_nodes single_edge_payload)
       (map (link_objs single_edge_payload) (build_links single_edge_payload))"

definition single_edge_focused :: scene where
  "single_edge_focused = map (focus_elem single_edge_payload ''0xbbb'') single_edge_scene"

section \<open>Hover enrichment\<close>

text \<open>
  A value read from a JSON body or stored in \<open>NodeHoverInfo\<close>: \<open>undefined\<close> (the body
  has no such field), \<open>null\<close>, or a string.
\<close>

datatype jsvalue = JUndefined | JNull | JString string

text \<open>
  \<open>NodeHoverInfo\<close>: an object whose three keys are optional; \<open>None\<close> is a key that is
  not there, so \<open>{}\<close> is \<open>empty_info\<close>.
\<close>

record hover_info =
  balance :: "jsvalue option"
  company :: "jsvalue option"
  error :: "bool option"

definition empty_info :: hover_info where
  "empty_info = \<lparr>balance = None, company = None, error = None\<rparr>"

datatype lookup = Balance | Company

text \<open>
  How one lookup chain \<open>fetch(url).then(res => res.json()).then(apply).catch(recover)\<close>
  ends: \<open>Rejected\<close> when the request or the JSON parsing fails, \<open>Body v\<close> when the
  body is an object, \<open>v\<close> being its \<open>balance\<close> (or \<open>company\<close>) field.
\<close>

datatype outcome = Rejected | Body jsvalue

text \<open>
  The component state the hover handlers touch: the two \<open>useState\<close> cells, the
  \<open>draggingRef\<close> flag, and the lookups that were issued and have not settled yet,
  each with the id of the node it was issued for.
\<close>

record hover_state =
  hoveredNodeId :: "string option"
  hoveredNodeInfo :: "hover_info option"
  dragging :: bool
  in_flight :: "(string \<times> lookup) list"

definition initial_hover :: hover_state where
  "initial_hover =
     \<lparr>hoveredNodeId = None, hoveredNodeInfo = None, dragging = False, in_flight = []\<rparr>"

text \<open>\<open>{ ...prev }\<close>: spreading \<open>null\<close> gives the empty object.\<close>

definition spread :: "hover_info option \<Rightarrow> hover_info" where
  "spread prev = (case prev of None \<Rightarrow> empty_info | Some i \<Rightarrow> i)"

text \<open>The \<open>then\<close> and \<open>catch\<close> callbacks of the two chains, as state updaters.\<close>

fun apply_outcome :: "lookup \<Rightarrow> outcome \<Rightarrow> hover_info option \<Rightarrow> hover_info" where
  "apply_outcome Balance (Body v) prev = (spread prev)\<lparr>balance := Some v\<rparr>"
| "apply_outcome Balance Rejected prev = (spread prev)\<lparr>balance := Some JNull, error := Some True\<rparr>"
| "apply_outcome Company (Body v) prev = (spread prev)\<lparr>company := Some v\<rparr>"
| "apply_outcome Company Rejected prev = (spread prev)\<lparr>company := Some JNull, error := Some True\<rparr>"

datatype hover_event =
    MouseOver string
  | MouseOut
  | DragStart
  | DragEnd
  | Settle string lookup outcome

text \<open>
  The handlers. \<open>MouseOver i\<close> is the pointer entering the circle of the node with id
  \<open>i\<close>; \<open>Settle i k out\<close> is the lookup \<open>k\<close> issued for node \<open>i\<close> settling, which can
  only happen while that lookup is in flight.
\<close>

fun hover_step :: "hover_state \<Rightarrow> hover_event \<Rightarrow> hover_state" where
  "hover_step s (MouseOver i) =
     (if dragging s then s
      else s\<lparr>hoveredNodeId := Some i, hoveredNodeInfo := Some empty_info,
             in_flight := in_flight s @ [(i, Balance), (i, Company)]\<rparr>)"
| "hover_step s MouseOut = s\<lparr>hoveredNodeId := None, hoveredNodeInfo := None\<rparr>"
| "hover_step s DragStart = s\<lparr>dragging := True\<rparr>"
| "hover_step s DragEnd = s\<lparr>dragging := False\<rparr>"
| "hover_step s (Settle i k out) =
     (if (i, k) \<in> set (in_flight s)
      then s\<lparr>hoveredNodeInfo := Some (apply_outcome k out (hoveredNodeInfo s)),
             in_flight := remove1 (i, k) (in_flight s)\<rparr>
      else s)"

definition hover_run :: "hover_state \<Rightarrow> hover_event list \<Rightarrow> hover_state" where
  "hover_run s evs = foldl hover_step s evs"

subsection \<open>NodeHoverCard\<close>

text \<open>What React prints for \<open>{nodeInfo.balance}\<close>: nothing for a missing, undefined or null value.\<close>

fun shown :: "jsvalue option \<Rightarrow> string" where
  "shown (Some (JString t)) = t"
| "shown v = []"

datatype card_body = Loading | Placeholders string string | Values string string

text \<open>\<open>Object.keys(nodeInfo).length === 0\<close>\<close>

definition no_keys :: "hover_info \<Rightarrow> bool" where
  "no_keys i = (balance i = None \<and> company i = None \<and> error i = None)"

definition card_body_of :: "hover_info option \<Rightarrow> card_body" where
  "card_body_of nodeInfo =
     (case nodeInfo of
        None \<Rightarrow> Loading
      | Some i \<Rightarrow>
          if no_keys i then Loading
          else if error i = Some True then Placeholders ''500'' ''CCinc''
          else Values (shown (balance i)) (shown (company i)))"

text \<open>
  The render of the component:
  \<open>hoveredNodeId && hoveredNodeInfo && <NodeHoverCard nodeId=... nodeInfo=... />\<close>;
  the empty string is falsy.
\<close>

definition hover_card :: "hover_state \<Rightarrow> (string \<times> card_body) option" where
  "hover_card s =
     (case hoveredNodeId s of
        None \<Rightarrow> None
      | Some i \<Rightarrow>
          if i = [] then None
          else (case hoveredNodeInfo s of
                  None \<Rightarrow> None
                | Some info \<Rightarrow> Some (i, card_body_of (Some info))))"

text \<open>The events that are a lookup settling.\<close>

definition is_settle :: "hover_event \<Rightarrow> bool" where
  "is_settle ev = (case ev of Settle i k out \<Rightarrow> True | _ \<Rightarrow> False)"

text \<open>The field a lookup writes, and what a settled lookup stores in it.\<close>

fun field_of :: "lookup \<Rightarrow> hover_info \<Rightarrow> jsvalue option" where
  "field_of Balance i = balance i"
| "field_of Company i = company i"

fun other_lookup :: "lookup \<Rightarrow> lookup" where
  "other_lookup Balance = Company"
| "other_lookup Company = Balance"

fun stored :: "outcome \<Rightarrow> jsvalue" where
  "stored (Body v) = v"
| "stored Rejected = JNull"

subsection \<open>One lookup chain\<close>

text \<open>
  \<open>fetch(url).then(res => res.json()).then(data => setHoveredNodeInfo(prev => ...))
     .catch(() => setHoveredNodeInfo(prev => ...))\<close>.
  The request fails or a response arrives; the body of a response is not JSON, is the
  JSON value \<open>null\<close>, or is any other JSON value, of which only the looked-up field
  matters (\<open>JUndefined\<close> when it has none).
\<close>

datatype body = Unparsable | NullBody | ObjectBody jsvalue

datatype response = RequestFailed | Response body

text \<open>A promise that has settled, and the two ways of chaining a callback to it.
  A callback that throws is \<open>None\<close>.\<close>

datatype 'a promise = Fulfilled 'a | Broken

fun then_p :: "('a \<Rightarrow> 'b option) \<Rightarrow> 'a promise \<Rightarrow> 'b promise" where
  "then_p f (Fulfilled x) = (case f x of None \<Rightarrow> Broken | Some y \<Rightarrow> Fulfilled y)"
| "then_p f Broken = Broken"

fun catch_p :: "'a option \<Rightarrow> 'a promise \<Rightarrow> 'a promise" where
  "catch_p g (Fulfilled x) = Fulfilled x"
| "catch_p g Broken = (case g of None \<Rightarrow> Broken | Some y \<Rightarrow> Fulfilled y)"

fun fetch_p :: "response \<Rightarrow> body promise" where
  "fetch_p RequestFailed = Broken"
| "fetch_p (Response b) = Fulfilled b"

text \<open>\<open>res.json()\<close> rejects on a body that is not JSON.\<close>

datatype data = NullData | ObjectData jsvalue

fun json_p :: "body \<Rightarrow> data option" where
  "json_p Unparsable = None"
| "json_p NullBody = Some NullData"
| "json_p (ObjectBody v) = Some (ObjectData v)"

text \<open>
  The updater a callback hands to \<open>setHoveredNodeInfo\<close>. The callback itself returns
  normally; \<open>data.balance\<close> is read only when React runs the updater, and on
  \<open>data === null\<close> that read throws: \<open>Throwing\<close>.
\<close>

datatype update = Apply outcome | Throwing

fun on_data :: "data \<Rightarrow> update option" where
  "on_data NullData = Some Throwing"
| "on_data (ObjectData v) = Some (Apply (Body v))"

definition on_error :: "update option" where
  "on_error = Some (Apply Rejected)"

definition lookup_chain :: "response \<Rightarrow> update promise" where
  "lookup_chain r = catch_p on_error (then_p on_data (then_p json_p (fetch_p r)))"

text \<open>React running an updater of lookup \<open>k\<close> on the previous hover info.\<close>

fun run_update :: "lookup \<Rightarrow> update \<Rightarrow> hover_info option \<Rightarrow> error + hover_info" where
  "run_update k (Apply out) prev = Inr (apply_outcome k out prev)"
| "run_update k Throwing prev = Inl TypeError"

text \<open>The pointer has entered the node \<open>0xA\<close>.\<close>

definition hovering_0xA :: hover_state where
  "hovering_0xA = hover_step initial_hover (MouseOver ''0xA'')"

section \<open>Lifecycle: drawing, timers and teardown\<close>

text \<open>
  The timers behind one mounted component. d3-force starts a timer with every
  simulation it creates and ticks until the simulation is stopped; a d3 transition
  runs on timers of its own and calls its \<open>end\<close> listener when it is over, whether or
  not its element is still in the document; a \<open>setTimeout\<close> callback runs unless it is
  cleared, and the source never clears one.

  A flow dot is in one of four phases: its travel transition (2000 ms) is running, its
  fade transition (200 ms) is running, the restart \<open>setTimeout\<close> is pending, or nothing
  is scheduled for it any more.
\<close>

datatype phase = Travel | Fade | Delay | Idle

record dot =
  attached :: bool
  phase :: phase

text \<open>
  The refs of the component and what hangs on them. \<open>sims ! i\<close> tells whether the timer
  of the \<open>i\<close>-th simulation ever created is still running; \<open>dots\<close> are all flow dots ever
  created, those of earlier graphs included.
\<close>

record lifecycle =
  svgRef :: bool
  graphDrawnRef :: bool
  simulationRef :: "nat option"
  svgSelection :: bool
  gSelection :: bool
  zoomBehavior :: bool
  zoom_bound :: bool
  sims :: "bool list"
  dots :: "dot list"

definition mounted_empty :: lifecycle where
  "mounted_empty =
     \<lparr>svgRef = True, graphDrawnRef = False, simulationRef = None, svgSelection = False,
      gSelection = False, zoomBehavior = False, zoom_bound = False, sims = [], dots = []\<rparr>"

text \<open>\<open>selectAll("*").remove()\<close> takes every element off its parent.\<close>

definition detach :: "dot \<Rightarrow> dot" where
  "detach x = x\<lparr>attached := False\<rparr>"

text \<open>A new flow dot; \<open>animateFlowDots\<close> starts its travel transition at once.\<close>

definition new_dot :: dot where
  "new_dot = \<lparr>attached = True, phase = Travel\<rparr>"

text \<open>
  drawGraph with its two guards. It clears the svg, binds the zoom behaviour, builds the
  model, creates and stores a new simulation, and draws one flow dot per link. It does
  not stop the simulation that \<open>simulationRef\<close> held before.
\<close>

definition drawGraph :: "lifecycle \<Rightarrow> graph_data \<Rightarrow> lifecycle" where
  "drawGraph s d =
     (if graphDrawnRef s then s
      else if \<not> svgRef s then s
      else s\<lparr>svgSelection := True, gSelection := True, zoomBehavior := True, zoom_bound := True,
             dots := map detach (dots s) @ map (\<lambda>l. new_dot) (build_links d),
             sims := sims s @ [True],
             simulationRef := Some (length (sims s)),
             graphDrawnRef := True\<rparr>)"

text \<open>The effect on \<open>jsonData\<close>: \<open>if (jsonData) { graphDrawnRef.current = false; drawGraph(jsonData) }\<close>.\<close>

definition payload_effect :: "lifecycle \<Rightarrow> graph_data option \<Rightarrow> lifecycle" where
  "payload_effect s jsonData =
     (case jsonData of None \<Rightarrow> s | Some d \<Rightarrow> drawGraph (s\<lparr>graphDrawnRef := False\<rparr>) d)"

text \<open>\<open>simulation.stop()\<close> on the simulation with the given index.\<close>

definition stop_sim :: "nat \<Rightarrow> bool list \<Rightarrow> bool list" where
  "stop_sim i xs = (if i < length xs then xs[i := False] else xs)"

text \<open>The cleanup function of the unmount effect.\<close>

definition cleanup :: "lifecycle \<Rightarrow> lifecycle" where
  "cleanup s =
     (let s1 = (case simulationRef s of
                  None \<Rightarrow> s
                | Some i \<Rightarrow> s\<lparr>sims := stop_sim i (sims s), simulationRef := None\<rparr>);
          s2 = (if svgRef s1
                then s1\<lparr>dots := map detach (dots s1), zoom_bound := False\<rparr>
                else s1)
      in s2\<lparr>svgSelection := False, gSelection := False, zoomBehavior := False\<rparr>)"

text \<open>
  Unmounting. The root is made with \<open>createRoot\<close>: React detaches the ref of a host
  element while it commits the deletion and runs the cleanup functions of \<open>useEffect\<close>
  after that, so the cleanup finds \<open>svgRef.current === null\<close>.
\<close>

definition unmount :: "lifecycle \<Rightarrow> lifecycle" where
  "unmount s = cleanup (s\<lparr>svgRef := False\<rparr>)"

text \<open>
  What the event loop can run next: a tick of simulation \<open>i\<close> (\<open>cooled\<close> tells whether
  alpha has fallen below 0.01, on which the tick listener stops the simulation), the end
  of the running transition of dot \<open>j\<close>, or the restart timeout of dot \<open>j\<close>.
\<close>

datatype timer_event = Tick nat bool | TransitionEnd nat | TimeoutFires nat

fun enabled :: "lifecycle \<Rightarrow> timer_event \<Rightarrow> bool" where
  "enabled s (Tick i cooled) = (i < length (sims s) \<and> sims s ! i)"
| "enabled s (TransitionEnd j) =
     (j < length (dots s) \<and> (phase (dots s ! j) = Travel \<or> phase (dots s ! j) = Fade))"
| "enabled s (TimeoutFires j) = (j < length (dots s) \<and> phase (dots s ! j) = Delay)"

text \<open>
  The listeners. At the end of the travel the fade starts; at the end of the fade
  \<open>if (parent && select(parent).node()) setTimeout(() => animateDot(dot, d), ...)\<close>;
  the timeout callback starts the next travel.
\<close>

definition transition_end :: "dot \<Rightarrow> dot" where
  "transition_end x =
     (case phase x of
        Travel \<Rightarrow> x\<lparr>phase := Fade\<rparr>
      | Fade \<Rightarrow> (if attached x then x\<lparr>phase := Delay\<rparr> else x\<lparr>phase := Idle\<rparr>)
      | Delay \<Rightarrow> x
      | Idle \<Rightarrow> x)"

definition animateDot :: "dot \<Rightarrow> dot" where
  "animateDot x = x\<lparr>phase := Travel\<rparr>"

fun fire :: "lifecycle \<Rightarrow> timer_event \<Rightarrow> lifecycle" where
  "fire s (Tick i cooled) =
     (if enabled s (Tick i cooled) \<and> cooled then s\<lparr>sims := stop_sim i (sims s)\<rparr> else s)"
| "fire s (TransitionEnd j) =
     (if enabled s (TransitionEnd j) then s\<lparr>dots := (dots s)[j := transition_end (dots s ! j)]\<rparr>
      else s)"
| "fire s (TimeoutFires j) =
     (if enabled s (TimeoutFires j) then s\<lparr>dots := (dots s)[j := animateDot (dots s ! j)]\<rparr>
      else s)"

definition fire_all :: "lifecycle \<Rightarrow> timer_event list \<Rightarrow> lifecycle" where
  "fire_all s evs = foldl fire s evs"

text \<open>The single-edge graph drawn, its dot at the end of a cycle: travel and fade are over and the
  restart delay is pending.\<close>

definition one_link_delay :: lifecycle where
  "one_link_delay =
     fire (fire (payload_effect mounted_empty (Some single_edge_payload)) (TransitionEnd 0))
          (TransitionEnd 0)"

chapter \<open>Verification\<close>

section \<open>The graph-model builder\<close>

lemma length_edge_links: "length (edge_links e) = length (entries e)"
  by (simp add: edge_links_def)

lemma wf_types_num_kinds: "wf_types e \<Longrightarrow> num_kinds e = length (entries e)"
proof -
  assume wf: "wf_types e"
  have d: "distinct (map fst (entries e))"
    using wf by (simp add: wf_types_def entries_def split: option.splits)
  have "card (fst ` set (entries e)) = card (set (map fst (entries e)))"
    by simp
  also have "\<dots> = length (map fst (entries e))"
    using d by (rule distinct_card)
  finally show ?thesis
    by (simp add: num_kinds_def)
qed

text \<open>
  C7. Every raw edge with k interaction kinds expands to exactly k links, each with the
  edge's source and target, one per kind with that kind's count, and the links of a
  payload are the links of its edges in order.
\<close>

theorem edge_expands_to_k_links:
  "wf_types e \<Longrightarrow>
     length (edge_links e) = num_kinds e
   \<and> (\<forall>l \<in> set (edge_links e).
         link_source l = Str (edge_source e) \<and> link_target l = Str (edge_target e))
   \<and> map (\<lambda>l. (link_type l, link_count l)) (edge_links e) = entries e
   \<and> (edges d = Some es \<longrightarrow> build_links d = concat (map edge_links es))"
proof (intro conjI)
  assume wf: "wf_types e"
  show "length (edge_links e) = num_kinds e"
    using wf by (simp add: length_edge_links wf_types_num_kinds)
  show "\<forall>l \<in> set (edge_links e).
          link_source l = Str (edge_source e) \<and> link_target l = Str (edge_target e)"
    by (auto simp: edge_links_def)
  show "map (\<lambda>l. (link_type l, link_count l)) (edge_links e) = entries e"
    by (simp add: edge_links_def comp_def case_prod_unfold)
  show "edges d = Some es \<longrightarrow> build_links d = concat (map edge_links es)"
    by (simp add: build_links_def edges_or_empty_def)
qed

theorem edge_expands_to_k_links_witness:
  "wf_types \<lparr>edge_source = ''0xAAA'', edge_target = ''0xBBB'',
             edge_types = Some [(''call'', 3), (''delegatecall'', 1)]\<rparr>
   \<and> length (edge_links \<lparr>edge_source = ''0xAAA'', edge_target = ''0xBBB'',
             edge_types = Some [(''call'', 3), (''delegatecall'', 1)]\<rparr>) = 2
   \<and> num_kinds \<lparr>edge_source = ''0xAAA'', edge_target = ''0xBBB'',
             edge_types = Some [(''call'', 3), (''delegatecall'', 1)]\<rparr> = 2"
proof -
  let ?e = "\<lparr>edge_source = ''0xAAA'', edge_target = ''0xBBB'',
             edge_types = Some [(''call'', 3), (''delegatecall'', 1)]\<rparr>"
  have wf: "wf_types ?e"
    by (simp add: wf_types_def)
  have len: "length (edge_links ?e) = 2"
    by (simp add: edge_links_def entries_def)
  from edge_expands_to_k_links [OF wf] have "length (edge_links ?e) = num_kinds ?e"
    by blast
  with wf len show ?thesis
    by simp
qed

subsection \<open>The node set\<close>

lemma set_set_add: "set (set_add s x) = insert x (set s)"
  by (auto simp: set_add_def)

lemma set_add_member: "x \<in> set s \<Longrightarrow> set_add s x = s"
  by (simp add: set_add_def)

lemma first_occurrences_snoc:
  "first_occurrences (xs @ [x]) =
     (if x \<in> set xs then first_occurrences xs else first_occurrences xs @ [x])"
  by (simp add: first_occurrences_def)

lemma set_first_occurrences: "set (first_occurrences xs) = set xs"
  by (simp add: first_occurrences_def)

lemma distinct_first_occurrences: "distinct (first_occurrences xs)"
  by (simp add: first_occurrences_def)

lemma foldl_set_add: "foldl set_add [] xs = first_occurrences xs"
proof (induction xs rule: rev_induct)
  case Nil
  show ?case by (simp add: first_occurrences_def)
next
  case (snoc x xs)
  then show ?case
    by (simp add: first_occurrences_snoc set_add_def set_first_occurrences)
qed

lemma set_add_twice:
  "set_add (set_add (set_add (set_add s x) y) x) y = set_add (set_add s x) y"
  by (simp add: set_add_member set_set_add)

lemma foldl_nodeSet_step_same:
  "\<forall>l \<in> set ls. endpoint_key (link_source l) = x \<and> endpoint_key (link_target l) = y \<Longrightarrow>
   foldl nodeSet_step s ls = (if ls = [] then s else set_add (set_add s x) y)"
proof (induction ls arbitrary: s)
  case Nil
  show ?case by simp
next
  case (Cons l ls)
  then show ?case
    by (simp add: nodeSet_step_def set_add_twice)
qed

lemma foldl_nodeSet_step_edge_links:
  "foldl nodeSet_step s (edge_links e) = edge_step s e"
proof -
  have "\<forall>l \<in> set (edge_links e).
          endpoint_key (link_source l) = edge_source e \<and> endpoint_key (link_target l) = edge_target e"
    by (auto simp: edge_links_def)
  then have "foldl nodeSet_step s (edge_links e) =
      (if edge_links e = [] then s else set_add (set_add s (edge_source e)) (edge_target e))"
    by (rule foldl_nodeSet_step_same)
  then show ?thesis
    by (simp add: edge_step_def edge_links_def)
qed

lemma foldl_nodeSet_step_concat:
  "foldl nodeSet_step s (concat (map edge_links es)) = foldl edge_step s es"
  by (induction es arbitrary: s) (simp_all add: foldl_nodeSet_step_edge_links)

lemma foldl_edge_step:
  "foldl edge_step s es =
   foldl set_add s (concat (map (\<lambda>e. [edge_source e, edge_target e])
                                 (filter (\<lambda>e. entries e \<noteq> []) es)))"
  by (induction es arbitrary: s) (simp_all add: edge_step_def)

lemma build_nodeSet_first_occurrences:
  "build_nodeSet (build_links d) = first_occurrences (edge_endpoints d)"
  by (simp add: build_nodeSet_def build_links_def foldl_nodeSet_step_concat foldl_edge_step
                edge_endpoints_def foldl_set_add)

lemma node_id_make_node: "node_id (make_node d i) = i"
  by (simp add: make_node_def)

lemma node_ids_build_nodes: "map node_id (build_nodes d) = first_occurrences (edge_endpoints d)"
  by (simp add: build_nodes_def comp_def node_id_make_node build_nodeSet_first_occurrences)





lemma distinct_lower_ids:
  assumes "inj_on toLowerCase (set (edge_endpoints d))"
  shows "distinct (map (toLowerCase \<circ> node_id) (build_nodes d))"
proof -
  have "distinct (map toLowerCase (first_occurrences (edge_endpoints d)))"
    using assms by (simp add: distinct_map distinct_first_occurrences set_first_occurrences)
  then have "distinct (map toLowerCase (map node_id (build_nodes d)))"
    by (simp only: node_ids_build_nodes)
  then show ?thesis
    by (simp only: map_map)
qed

lemma lower_0xA: "toLowerCase ''0xA'' = ''0xa''"
  by code_simp

lemma lower_0xa: "toLowerCase ''0xa'' = ''0xa''"
  by code_simp

lemma lower_0xAAA: "toLowerCase ''0xAAA'' = ''0xaaa''"
  by code_simp

lemma lower_0xBBB: "toLowerCase ''0xBBB'' = ''0xbbb''"
  by code_simp

lemma lower_0xbbb: "toLowerCase ''0xbbb'' = ''0xbbb''"
  by code_simp

lemma endpoints_single_edge: "edge_endpoints single_edge_payload = [''0xAAA'', ''0xBBB'']"
  by (simp add: edge_endpoints_def single_edge_payload_def edges_or_empty_def entries_def)

lemma endpoints_mixed_case: "edge_endpoints mixed_case_payload = [''0xA'', ''0xa'']"
  by (simp add: edge_endpoints_def mixed_case_payload_def edges_or_empty_def entries_def)

lemma node_ids_mixed_case: "map node_id (build_nodes mixed_case_payload) = [''0xA'', ''0xa'']"
  by (simp add: node_ids_build_nodes endpoints_mixed_case first_occurrences_def)

lemma build_nodes_single_edge:
  "build_nodes single_edge_payload =
     [\<lparr>node_id = ''0xAAA'', node_group = MainGroup\<rparr>,
      \<lparr>node_id = ''0xBBB'', node_group = OtherGroup\<rparr>]"
  by (simp add: build_nodes_def build_nodeSet_first_occurrences endpoints_single_edge
                first_occurrences_def make_node_def lower_0xAAA lower_0xBBB)
     (simp add: single_edge_payload_def lower_0xAAA)

text \<open>An edge without interaction kinds yields no link, so its endpoints yield no node.\<close>

lemma edge_without_kinds_no_nodes:
  "build_nodes \<lparr>address = ''0xa'',
                edges = Some [\<lparr>edge_source = ''0xa'', edge_target = ''0xb'',
                               edge_types = Some []\<rparr>]\<rparr> = []"
  by (simp add: build_nodes_def build_nodeSet_def build_links_def edges_or_empty_def
                edge_links_def entries_def)

text \<open>
  C1, as the claim states it, fails: the node set compares addresses exactly, so a payload
  that spells one address in two casings gets two nodes for one lowercase address.
\<close>

theorem node_per_lowercase_address_counterexample:
  "map node_id (build_nodes mixed_case_payload) = [''0xA'', ''0xa'']
   \<and> toLowerCase ''0xA'' = toLowerCase ''0xa''"
  by (simp add: node_ids_mixed_case lower_0xA lower_0xa)

text \<open>
  C1, amended. The node ids are the endpoint strings of the edges that carry at least one
  interaction kind, each exact spelling once, in order of first appearance; hence the
  lowercase addresses of the nodes are the lowercase addresses of those endpoints. When
  no two endpoint spellings differ only in case, there is exactly one node per lowercase
  address.
\<close>

theorem node_ids_first_occurrences:
  "map node_id (build_nodes d) = first_occurrences (edge_endpoints d)
   \<and> distinct (map node_id (build_nodes d))
   \<and> set (map node_id (build_nodes d)) = set (edge_endpoints d)
   \<and> toLowerCase ` set (map node_id (build_nodes d)) = toLowerCase ` set (edge_endpoints d)
   \<and> (inj_on toLowerCase (set (edge_endpoints d)) \<longrightarrow>
        distinct (map (toLowerCase \<circ> node_id) (build_nodes d)))"
proof (intro conjI impI)
  show ids: "map node_id (build_nodes d) = first_occurrences (edge_endpoints d)"
    by (rule node_ids_build_nodes)
  show "distinct (map node_id (build_nodes d))"
    by (simp only: ids distinct_first_occurrences)
  show sets: "set (map node_id (build_nodes d)) = set (edge_endpoints d)"
    by (simp only: ids set_first_occurrences)
  show "toLowerCase ` set (map node_id (build_nodes d)) = toLowerCase ` set (edge_endpoints d)"
    by (simp only: sets)
  show "distinct (map (toLowerCase \<circ> node_id) (build_nodes d))"
    if "inj_on toLowerCase (set (edge_endpoints d))"
    using that by (rule distinct_lower_ids)
qed

theorem node_ids_first_occurrences_witness:
  "inj_on toLowerCase (set (edge_endpoints single_edge_payload))
   \<and> map node_id (build_nodes single_edge_payload) = [''0xAAA'', ''0xBBB'']
   \<and> distinct (map (toLowerCase \<circ> node_id) (build_nodes single_edge_payload))"
proof -
  have inj: "inj_on toLowerCase (set (edge_endpoints single_edge_payload))"
    by (simp add: endpoints_single_edge lower_0xAAA lower_0xBBB)
  have ids: "map node_id (build_nodes single_edge_payload) = [''0xAAA'', ''0xBBB'']"
    by (simp add: build_nodes_single_edge)
  from node_ids_first_occurrences [of single_edge_payload] inj
  have "distinct (map (toLowerCase \<circ> node_id) (build_nodes single_edge_payload))"
    by blast
  with inj ids show ?thesis
    by blast
qed




section \<open>Drawing\<close>

lemma find_make_node:
  "i \<in> set ids \<Longrightarrow> find (\<lambda>n. node_id n = i) (map (make_node d) ids) = Some (make_node d i)"
  by (induction ids) (auto simp: node_id_make_node)

lemma resolve_Str:
  "i \<in> set ids \<Longrightarrow> resolve (map (make_node d) ids) (Str i) = Inr (Obj (make_node d i))"
  by (simp add: find_make_node)

lemma forceLink_init_Str:
  "\<forall>l \<in> set ls. \<exists>s t. link_source l = Str s \<and> link_target l = Str t
                         \<and> s \<in> set ids \<and> t \<in> set ids \<Longrightarrow>
   forceLink_init (map (make_node d) ids) ls = Inr (map (link_objs d) ls)"
proof (induction ls)
  case Nil
  show ?case by simp
next
  case (Cons l ls)
  from Cons.prems obtain s t where st:
    "link_source l = Str s" "link_target l = Str t" "s \<in> set ids" "t \<in> set ids"
    by auto
  have "forceLink_init (map (make_node d) ids) ls = Inr (map (link_objs d) ls)"
    using Cons by simp
  then show ?case
    using st by (simp add: resolve_Str link_objs_def del: resolve.simps)
qed

lemma build_links_endpoints:
  assumes "l \<in> set (build_links d)"
  shows "\<exists>s t. link_source l = Str s \<and> link_target l = Str t
               \<and> s \<in> set (edge_endpoints d) \<and> t \<in> set (edge_endpoints d)"
proof -
  from assms obtain e where e: "e \<in> set (edges_or_empty d)" "l \<in> set (edge_links e)"
    by (auto simp: build_links_def)
  then have ne: "entries e \<noteq> []"
    by (auto simp: edge_links_def)
  have "link_source l = Str (edge_source e)" "link_target l = Str (edge_target e)"
    using e(2) by (auto simp: edge_links_def)
  moreover have "edge_source e \<in> set (edge_endpoints d)" "edge_target e \<in> set (edge_endpoints d)"
    using e(1) ne by (auto simp: edge_endpoints_def)
  ultimately show ?thesis
    by blast
qed

lemma forceLink_init_build:
  "forceLink_init (build_nodes d) (build_links d) = Inr (map (link_objs d) (build_links d))"
proof -
  have "\<forall>l \<in> set (build_links d). \<exists>s t. link_source l = Str s \<and> link_target l = Str t
          \<and> s \<in> set (build_nodeSet (build_links d)) \<and> t \<in> set (build_nodeSet (build_links d))"
    using build_links_endpoints
    by (simp add: build_nodeSet_first_occurrences set_first_occurrences)
  then show ?thesis
    unfolding build_nodes_def by (rule forceLink_init_Str)
qed

lemma draw_scene_eq:
  "draw_scene d = Inr (scene_of (build_nodes d) (map (link_objs d) (build_links d)))"
  by (simp add: draw_scene_def Let_def forceLink_init_build)

lemma endpoint_lower_key: "endpoint_lower ep = toLowerCase (endpoint_key ep)"
  by (cases ep) (simp_all add: toLowerCase_def)

section \<open>The highlight effect\<close>

subsection \<open>The effect, element by element\<close>

lemma reset_defaults_map: "reset_defaults s = map reset_elem s"
  by (simp add: reset_defaults_def attr_all_def reset_elem_def)

lemma no_throw_Nil: "no_throw a []"
  by (simp add: no_throw_def)

lemma no_throw_Cons:
  "no_throw a (e # es) \<longleftrightarrow>
     (matches (ByTagClass Line (link_class a)) e \<longrightarrow> datum e \<noteq> NoDatum) \<and> no_throw a es"
  by (simp add: no_throw_def)

lemma edge_color_cases:
  "x \<noteq> NoDatum \<Longrightarrow> \<exists>c. edge_color d x = Inr c"
  by (cases x) simp_all

lemma attr_stroke_ok:
  "no_throw a s \<Longrightarrow>
   attr_stroke (edge_color d) (ByTagClass Line (link_class a)) s = Inr (map (stroke_elem d a) s)"
proof (induction s)
  case Nil
  show ?case by simp
next
  case (Cons e es)
  then have ih: "attr_stroke (edge_color d) (ByTagClass Line (link_class a)) es
                   = Inr (map (stroke_elem d a) es)"
    by (simp add: no_throw_Cons)
  show ?case
  proof (cases "matches (ByTagClass Line (link_class a)) e")
    case False
    then show ?thesis
      using ih by (simp add: stroke_elem_def del: matches.simps)
  next
    case True
    with Cons.prems have "datum e \<noteq> NoDatum"
      by (simp add: no_throw_Cons del: matches.simps)
    then obtain c where "edge_color d (datum e) = Inr c"
      using edge_color_cases by blast
    then show ?thesis
      using True ih by (simp add: stroke_elem_def del: matches.simps)
  qed
qed

lemma attr_stroke_throws:
  "\<not> no_throw a s \<Longrightarrow>
   attr_stroke (edge_color d) (ByTagClass Line (link_class a)) s = Inl TypeError"
proof (induction s)
  case Nil
  then show ?case by (simp add: no_throw_Nil)
next
  case (Cons e es)
  show ?case
  proof (cases "matches (ByTagClass Line (link_class a)) e")
    case False
    with Cons show ?thesis
      by (simp add: no_throw_Cons del: matches.simps)
  next
    case True
    show ?thesis
    proof (cases "datum e = NoDatum")
      case True
      with \<open>matches (ByTagClass Line (link_class a)) e\<close> show ?thesis
        by (simp del: matches.simps)
    next
      case False
      then obtain c where "edge_color d (datum e) = Inr c"
        using edge_color_cases by blast
      moreover have "attr_stroke (edge_color d) (ByTagClass Line (link_class a)) es = Inl TypeError"
        using Cons False by (simp add: no_throw_Cons del: matches.simps)
      ultimately show ?thesis
        using True by (simp del: matches.simps)
    qed
  qed
qed

lemma dim_elem_keeps [simp]:
  "tag (dim_elem a e) = tag e" "classes (dim_elem a e) = classes e" "datum (dim_elem a e) = datum e"
  by (simp_all add: dim_elem_def Let_def)

lemma reset_elem_keeps [simp]:
  "tag (reset_elem e) = tag e" "classes (reset_elem e) = classes e" "datum (reset_elem e) = datum e"
  by (simp_all add: reset_elem_def)

lemma stroke_elem_keeps [simp]:
  "tag (stroke_elem d a e) = tag e" "classes (stroke_elem d a e) = classes e"
  "datum (stroke_elem d a e) = datum e"
  by (simp_all add: stroke_elem_def split: sum.splits)

lemma dims_map:
  "attr_all (ByTagClass Line (link_class a)) (\<lambda>e. e\<lparr>stroke_opacity := Some 1\<rparr>)
     (attr_all (ByClass (node_class a)) (\<lambda>e. e\<lparr>opacity := Some 1, stroke_width := Some 3\<rparr>)
        (attr_all (ByTag Line) (\<lambda>e. e\<lparr>stroke_opacity := Some 0.1\<rparr>)
           (attr_all (ByTag Circle) (\<lambda>e. e\<lparr>opacity := Some 0.2\<rparr>) s)))
   = map (dim_elem a) s"
  by (simp add: attr_all_def dim_elem_def Let_def)

lemma no_throw_map:
  "(\<And>e. tag (f e) = tag e \<and> classes (f e) = classes e \<and> datum (f e) = datum e) \<Longrightarrow>
   no_throw a (map f s) = no_throw a s"
  by (simp add: no_throw_def)

lemma apply_focus_eq:
  "apply_focus d a s =
     (if no_throw a s then Inr (map (\<lambda>e. stroke_elem d a (dim_elem a e)) s) else Inl TypeError)"
proof -
  have nt: "no_throw a (map (dim_elem a) s) = no_throw a s"
    by (rule no_throw_map) simp
  have "apply_focus d a s
          = attr_stroke (edge_color d) (ByTagClass Line (link_class a)) (map (dim_elem a) s)"
    by (simp only: apply_focus_def Let_def dims_map)
  then show ?thesis
    using nt attr_stroke_ok [of a "map (dim_elem a) s" d]
          attr_stroke_throws [of a "map (dim_elem a) s" d]
    by (simp add: comp_def)
qed

lemma map_focus_elem:
  "map (\<lambda>e. stroke_elem d a (dim_elem a e)) (map reset_elem s) = map (focus_elem d a) s"
  by (simp add: focus_elem_def)

lemma highlight_focus_eq:
  "a \<noteq> [] \<Longrightarrow>
   highlight_effect (Some s) (Some d) (Some a) =
     (if no_throw a s then Inr (Some (map (focus_elem d a) s)) else Inl TypeError)"
proof -
  assume a: "a \<noteq> []"
  have nt: "no_throw a (map reset_elem s) = no_throw a s"
    by (rule no_throw_map) simp
  have "highlight_effect (Some s) (Some d) (Some a) =
          (case apply_focus d a (map reset_elem s) of
              Inl err \<Rightarrow> Inl err | Inr s' \<Rightarrow> Inr (Some s'))"
    using a by (simp add: highlight_effect_def reset_defaults_map)
  also have "\<dots> = (if no_throw a s then Inr (Some (map (focus_elem d a) s)) else Inl TypeError)"
    by (simp only: apply_focus_eq nt map_focus_elem) simp
  finally show ?thesis .
qed

lemma highlight_neutral_eq:
  "\<not> (\<exists>a. h = Some a \<and> a \<noteq> []) \<Longrightarrow>
   highlight_effect (Some s) (Some d) h = Inr (Some (map reset_elem s))"
  by (cases h) (auto simp: highlight_effect_def reset_defaults_map)

lemma reset_elem_idem: "reset_elem (reset_elem e) = reset_elem e"
  by (simp add: reset_elem_def)

lemma focus_elem_keeps [simp]:
  "tag (focus_elem d a e) = tag e" "classes (focus_elem d a e) = classes e"
  "datum (focus_elem d a e) = datum e"
  by (simp_all add: focus_elem_def)

lemma focus_elem_Circle:
  "tag e = Circle \<Longrightarrow>
   focus_elem d a e =
     e\<lparr>opacity := Some (if node_class a \<in> set (classes e) then 1 else 0.2),
       stroke_width := Some (if node_class a \<in> set (classes e) then 3 else 1.5)\<rparr>"
  by (simp add: focus_elem_def stroke_elem_def dim_elem_def reset_elem_def Let_def)

lemma focus_elem_other:
  "tag e \<noteq> Circle \<Longrightarrow> tag e \<noteq> Line \<Longrightarrow>
   focus_elem d a e =
     (if node_class a \<in> set (classes e) then e\<lparr>opacity := Some 1, stroke_width := Some 3\<rparr> else e)"
  by (simp add: focus_elem_def stroke_elem_def dim_elem_def reset_elem_def Let_def)

lemma focus_elem_Line:
  "tag e = Line \<Longrightarrow>
   focus_elem d a e =
     (let e1 = e\<lparr>stroke_opacity := Some (if link_class a \<in> set (classes e) then 1 else 0.1),
                 stroke := (if link_class a \<in> set (classes e)
                            then hit_color d (datum e) (Some ''#999'') else Some ''#999'')\<rparr>
      in if node_class a \<in> set (classes e)
         then e1\<lparr>opacity := Some 1, stroke_width := Some 3\<rparr> else e1)"
  by (cases "edge_color d (datum e)")
     (simp_all add: focus_elem_def stroke_elem_def dim_elem_def reset_elem_def Let_def hit_color_def)

lemma focus_elem_idem_Circle:
  "tag e = Circle \<Longrightarrow> focus_elem d a (focus_elem d a e) = focus_elem d a e"
  by (simp add: focus_elem_Circle)

lemma focus_elem_idem_other:
  "tag e \<noteq> Circle \<Longrightarrow> tag e \<noteq> Line \<Longrightarrow> focus_elem d a (focus_elem d a e) = focus_elem d a e"
  by (simp add: focus_elem_other)

lemma focus_elem_idem_Line:
  assumes "tag e = Line"
  shows "focus_elem d a (focus_elem d a e) = focus_elem d a e"
proof -
  have t: "tag (focus_elem d a e) = Line"
    using assms by simp
  show ?thesis
    by (simp only: focus_elem_Line [OF t] focus_elem_keeps)
       (simp add: focus_elem_Line [OF assms] Let_def)
qed

lemma focus_elem_idem: "focus_elem d a (focus_elem d a e) = focus_elem d a e"
proof (cases "tag e = Circle")
  case True
  then show ?thesis by (rule focus_elem_idem_Circle)
next
  case False
  show ?thesis
  proof (cases "tag e = Line")
    case True
    then show ?thesis by (rule focus_elem_idem_Line)
  next
    case False
    with \<open>tag e \<noteq> Circle\<close> show ?thesis by (rule focus_elem_idem_other)
  qed
qed

lemma highlight_idempotent_aux:
  assumes "highlight_effect (Some s) (Some d) h = Inr (Some s')"
  shows "highlight_effect (Some s') (Some d) h = Inr (Some s')"
proof (cases "\<exists>a. h = Some a \<and> a \<noteq> []")
  case False
  then have "s' = map reset_elem s"
    using assms by (simp add: highlight_neutral_eq)
  then show ?thesis
    using False by (simp add: highlight_neutral_eq reset_elem_idem)
next
  case True
  then obtain a where a: "h = Some a" "a \<noteq> []"
    by blast
  have nt: "no_throw a s" and s': "s' = map (focus_elem d a) s"
    using assms a by (simp_all add: highlight_focus_eq split: if_splits)
  have "no_throw a s'"
    unfolding s' using nt by (simp add: no_throw_map)
  moreover have "map (focus_elem d a) s' = s'"
    unfolding s' by (simp add: focus_elem_idem)
  ultimately show ?thesis
    using a by (simp add: highlight_focus_eq)
qed

lemma link_class_inj [simp]: "link_class x = link_class y \<longleftrightarrow> x = y"
  by (simp add: link_class_def)

lemma node_class_inj [simp]: "node_class x = node_class y \<longleftrightarrow> x = y"
  by (simp add: node_class_def)

lemma link_not_node_class [simp]: "link_class x \<noteq> node_class y"
  by (simp add: link_class_def node_class_def)

lemma node_not_link_class [simp]: "node_class y \<noteq> link_class x"
  by (simp add: link_class_def node_class_def)

lemma flow_dot_not_node_class [simp]: "''flow-dot'' \<noteq> node_class y"
  by (simp add: node_class_def)

lemma flow_layer_not_node_class [simp]: "''flow-dots-layer'' \<noteq> node_class y"
  by (simp add: node_class_def)

lemma node_circles_map:
  "(\<And>e. tag (f e) = tag e \<and> datum (f e) = datum e) \<Longrightarrow>
   node_circles (map f s) = map f (node_circles s)"
proof -
  assume keeps: "\<And>e. tag (f e) = tag e \<and> datum (f e) = datum e"
  have "is_node_circle (f e) = is_node_circle e" for e
    by (simp add: is_node_circle_def keeps)
  then show ?thesis
    by (simp add: node_circles_def filter_map comp_def)
qed

lemma link_lines_map:
  "(\<And>e. tag (f e) = tag e) \<Longrightarrow> link_lines (map f s) = map f (link_lines s)"
  by (simp add: link_lines_def filter_map comp_def)

lemma node_circles_scene_of: "node_circles (scene_of ns ls) = map node_el ns"
  by (simp add: node_circles_def scene_of_def is_node_circle_def plain_def link_layer_def
        flow_dots_layer_def node_layer_def filter_map comp_def line_el_def flow_dot_el_def
        node_el_def label_el_def)

lemma link_lines_scene_of: "link_lines (scene_of ns ls) = map line_el ls"
  by (simp add: link_lines_def scene_of_def plain_def link_layer_def
        flow_dots_layer_def node_layer_def filter_map comp_def line_el_def flow_dot_el_def
        node_el_def label_el_def)

lemma no_throw_scene_of: "no_throw a (scene_of ns ls)"
  by (auto simp: no_throw_def scene_of_def plain_def link_layer_def
        flow_dots_layer_def node_layer_def line_el_def flow_dot_el_def node_el_def label_el_def)

lemma render_focus_eq:
  "a \<noteq> [] \<Longrightarrow>
   render_focus d (Some a) =
     Inr (Some (map (focus_elem d a) (scene_of (build_nodes d) (map (link_objs d) (build_links d)))))"
  by (simp add: render_focus_def draw_scene_eq highlight_focus_eq no_throw_scene_of)

lemma focus_node_el:
  "focus_elem d a (node_el n) =
     (node_el n)\<lparr>opacity := Some (if toLowerCase (node_id n) = a then 1 else 0.2),
                 stroke_width := Some (if toLowerCase (node_id n) = a then 3 else 1.5)\<rparr>"
  by (simp add: focus_elem_Circle node_el_def plain_def)

lemma line_el_link_objs:
  "classes (line_el (link_objs d l)) =
     [link_class (toLowerCase (endpoint_key (link_source l))),
      link_class (toLowerCase (endpoint_key (link_target l)))]"
  "tag (line_el (link_objs d l)) = Line"
  "datum (line_el (link_objs d l)) = LinkDatum (link_objs d l)"
  by (simp_all add: line_el_def link_objs_def plain_def endpoint_lower_key node_id_make_node)

lemma edge_color_link_objs:
  "edge_color d (LinkDatum (link_objs d l)) =
     Inr (if is_direct d l then direct_color else transitive_color)"
  by (simp add: link_objs_def endpoint_lower_key node_id_make_node color_of_def is_direct_def)

lemma toLowerCase_Nil: "toLowerCase x = [] \<longleftrightarrow> x = []"
  by (simp add: toLowerCase_def)

lemma focus_line_el:
  "stroke_opacity (focus_elem d (toLowerCase x) (line_el (link_objs d l)))
     = focused_link_opacity x l"
  "stroke (focus_elem d (toLowerCase x) (line_el (link_objs d l))) = focused_link_color d x l"
  by (simp_all add: focus_elem_Line line_el_link_objs Let_def hit_color_def edge_color_link_objs
        focused_link_opacity_def focused_link_color_def touches_def del: edge_color.simps)

lemma focused_node_circles:
  "node_circles (map (focus_elem d a) (scene_of ns ls)) = map (\<lambda>n. focus_elem d a (node_el n)) ns"
proof -
  have "node_circles (map (focus_elem d a) (scene_of ns ls))
          = map (focus_elem d a) (node_circles (scene_of ns ls))"
    by (rule node_circles_map) simp
  then show ?thesis
    by (simp add: node_circles_scene_of)
qed

lemma focused_link_lines:
  "link_lines (map (focus_elem d a) (scene_of ns ls)) = map (\<lambda>l. focus_elem d a (line_el l)) ls"
proof -
  have "link_lines (map (focus_elem d a) (scene_of ns ls))
          = map (focus_elem d a) (link_lines (scene_of ns ls))"
    by (rule link_lines_map) simp
  then show ?thesis
    by (simp add: link_lines_scene_of)
qed

lemma node_opacities_focus:
  "a \<noteq> [] \<Longrightarrow>
   node_opacities (render_focus d (Some a)) =
     Some (map (\<lambda>n. Some (if toLowerCase (node_id n) = a then 1 else 0.2)) (build_nodes d))"
  by (simp add: node_opacities_def observe_def render_focus_eq focused_node_circles focus_node_el
        comp_def)

lemma node_data_focus:
  "a \<noteq> [] \<Longrightarrow> node_data (render_focus d (Some a)) = Some (map NodeDatum (build_nodes d))"
  by (simp add: node_data_def observe_def render_focus_eq focused_node_circles comp_def node_el_def
      plain_def)

lemma link_opacities_focus:
  "x \<noteq> [] \<Longrightarrow>
   link_opacities (render_focus d (Some (toLowerCase x)))
     = Some (map (focused_link_opacity x) (build_links d))"
  by (simp add: link_opacities_def observe_def render_focus_eq focused_link_lines focus_line_el
        comp_def toLowerCase_Nil)

lemma link_colors_focus:
  "x \<noteq> [] \<Longrightarrow>
   link_colors (render_focus d (Some (toLowerCase x)))
     = Some (map (focused_link_color d x) (build_links d))"
  by (simp add: link_colors_def observe_def render_focus_eq focused_link_lines focus_line_el
        comp_def toLowerCase_Nil)

text \<open>
  C3. For every payload and every address \<open>x\<close> that is focused (a click on a row with
  target \<open>x\<close> sets the focus to \<open>x\<close> in lowercase), drawing the graph and running the
  effect leaves every node circle dimmed to 0.2 except those whose id equals \<open>x\<close> up
  to case, and every line dimmed to 0.1 except those with an endpoint equal to \<open>x\<close> up
  to case; these are at opacity 1, and such a line is coloured direct when an endpoint
  is the subject address and transitive when neither is.
\<close>

theorem focus_dims_all_but_matching:
  "x \<noteq> [] \<Longrightarrow>
     (h \<noteq> Some (toLowerCase x) \<longrightarrow> row_click h x = Some (toLowerCase x))
   \<and> node_data (render_focus d (Some (toLowerCase x))) = Some (map NodeDatum (build_nodes d))
   \<and> node_opacities (render_focus d (Some (toLowerCase x)))
       = Some (map (focused_node_opacity x) (build_nodes d))
   \<and> link_opacities (render_focus d (Some (toLowerCase x)))
       = Some (map (focused_link_opacity x) (build_links d))
   \<and> link_colors (render_focus d (Some (toLowerCase x)))
       = Some (map (focused_link_color d x) (build_links d))"
proof -
  assume x: "x \<noteq> []"
  then have a: "toLowerCase x \<noteq> []"
    by (simp add: toLowerCase_Nil)
  have click: "h \<noteq> Some (toLowerCase x) \<longrightarrow> row_click h x = Some (toLowerCase x)"
    by (simp add: row_click_def)
  have data: "node_data (render_focus d (Some (toLowerCase x)))
                = Some (map NodeDatum (build_nodes d))"
    using a by (rule node_data_focus)
  have nodes: "node_opacities (render_focus d (Some (toLowerCase x)))
                 = Some (map (focused_node_opacity x) (build_nodes d))"
    using a by (simp add: node_opacities_focus focused_node_opacity_def)
  have links: "link_opacities (render_focus d (Some (toLowerCase x)))
                 = Some (map (focused_link_opacity x) (build_links d))"
    using x by (rule link_opacities_focus)
  have colors: "link_colors (render_focus d (Some (toLowerCase x)))
                  = Some (map (focused_link_color d x) (build_links d))"
    using x by (rule link_colors_focus)
  from click data nodes links colors show ?thesis
    by (intro conjI)
qed

lemma build_links_single_edge:
  "build_links single_edge_payload =
     [\<lparr>link_source = Str ''0xAAA'', link_target = Str ''0xBBB'', link_type = ''call'',
       link_count = 3\<rparr>]"
  by (simp add: build_links_def single_edge_payload_def edges_or_empty_def edge_links_def
        entries_def)

theorem focus_dims_all_but_matching_witness:
  "''0xBBB'' \<noteq> []
   \<and> row_click None ''0xBBB'' = Some ''0xbbb''
   \<and> node_opacities (render_focus single_edge_payload (Some ''0xbbb'')) = Some [Some 0.2, Some 1]
   \<and> link_opacities (render_focus single_edge_payload (Some ''0xbbb'')) = Some [Some 1]
   \<and> link_colors (render_focus single_edge_payload (Some ''0xbbb'')) = Some [Some direct_color]"
proof -
  have h: "''0xBBB'' \<noteq> []"
    by simp
  have addr: "address single_edge_payload = ''0xAAA''"
    by (simp add: single_edge_payload_def)
  from focus_dims_all_but_matching [OF h, of None single_edge_payload] h show ?thesis
    by (simp add: build_nodes_single_edge build_links_single_edge focused_node_opacity_def
          focused_link_opacity_def focused_link_color_def touches_def is_direct_def
          lower_0xAAA lower_0xBBB addr)
qed

lemma reset_focus_elem:
  "tag e = Circle \<or> node_class a \<notin> set (classes e) \<Longrightarrow>
   reset_elem (focus_elem d a e) = reset_elem e"
proof (cases "tag e = Circle")
  case True
  then show ?thesis
    by (simp add: focus_elem_Circle reset_elem_def)
next
  case False
  assume "tag e = Circle \<or> node_class a \<notin> set (classes e)"
  with False have nc: "node_class a \<notin> set (classes e)"
    by simp
  show ?thesis
  proof (cases "tag e = Line")
    case True
    then show ?thesis
      using nc by (simp add: focus_elem_Line reset_elem_def Let_def)
  next
    case False
    with \<open>tag e \<noteq> Circle\<close> show ?thesis
      using nc by (simp add: focus_elem_other)
  qed
qed

lemma node_class_not_flow [simp]:
  "node_class y \<noteq> ''flow-dot''" "node_class y \<noteq> ''flow-dots-layer''"
  by (simp_all add: node_class_def)

lemma scene_of_node_class:
  "e \<in> set (scene_of ns ls) \<Longrightarrow> tag e = Circle \<or> node_class a \<notin> set (classes e)"
  by (auto simp: scene_of_def plain_def link_layer_def flow_dots_layer_def node_layer_def
        line_el_def flow_dot_el_def node_el_def label_el_def)

lemma reset_focus_scene_of:
  "map reset_elem (map (focus_elem d a) (scene_of ns ls)) = map reset_elem (scene_of ns ls)"
  by (simp add: reset_focus_elem scene_of_node_class)

lemma render_neutral_eq:
  "\<not> (\<exists>a. h = Some a \<and> a \<noteq> []) \<Longrightarrow>
   render_focus d h =
     Inr (Some (map reset_elem (scene_of (build_nodes d) (map (link_objs d) (build_links d)))))"
  by (simp add: render_focus_def draw_scene_eq highlight_neutral_eq)

lemma neutral_restores_drawn:
  assumes "render_focus d h = Inr (Some s')"
  shows "highlight_effect (Some s') (Some d) None = render_focus d None"
proof (cases "\<exists>a. h = Some a \<and> a \<noteq> []")
  case False
  then have "s' = map reset_elem (scene_of (build_nodes d) (map (link_objs d) (build_links d)))"
    using assms by (simp add: render_neutral_eq)
  then show ?thesis
    by (simp add: highlight_neutral_eq render_neutral_eq reset_elem_idem)
next
  case True
  then obtain a where a: "h = Some a" "a \<noteq> []"
    by blast
  then have "s' = map (focus_elem d a) (scene_of (build_nodes d) (map (link_objs d) (build_links d)))"
    using assms by (simp add: render_focus_eq)
  moreover have "highlight_effect (Some X) (Some d) None = Inr (Some (map reset_elem X))" for X
    by (simp add: highlight_neutral_eq)
  moreover have "render_focus d None =
      Inr (Some (map reset_elem (scene_of (build_nodes d) (map (link_objs d) (build_links d)))))"
    by (simp add: render_neutral_eq)
  ultimately show ?thesis
    by (simp only: reset_focus_scene_of)
qed

lemma reset_defaults_look:
  "e \<in> set (reset_defaults s) \<Longrightarrow>
     (tag e = Circle \<longrightarrow> opacity e = Some 1)
   \<and> (tag e = Line \<longrightarrow> stroke_opacity e = Some 0.6 \<and> stroke e = Some ''#999'')"
  by (auto simp: reset_defaults_map reset_elem_def)

text \<open>
  C9. Running the effect again on its own result, with the same payload and focus,
  changes nothing. Without focus the effect puts every circle at opacity 1 and every
  line at stroke opacity 0.6 and stroke \<open>#999\<close>, and on a drawn graph the neutral
  state after any focus is the neutral state of the freshly drawn graph.
\<close>

theorem highlight_idempotent_resettable:
  "(highlight_effect (Some s) jd h = Inr (Some s') \<longrightarrow>
      highlight_effect (Some s') jd h = Inr (Some s'))
   \<and> highlight_effect (Some s) (Some d) None = Inr (Some (reset_defaults s))
   \<and> (\<forall>e \<in> set (reset_defaults s).
         (tag e = Circle \<longrightarrow> opacity e = Some 1)
       \<and> (tag e = Line \<longrightarrow> stroke_opacity e = Some 0.6 \<and> stroke e = Some ''#999''))
   \<and> (render_focus d h = Inr (Some s') \<longrightarrow>
         highlight_effect (Some s') (Some d) None = render_focus d None)"
proof -
  have idem: "highlight_effect (Some s) jd h = Inr (Some s') \<longrightarrow>
                highlight_effect (Some s') jd h = Inr (Some s')"
  proof
    assume eff: "highlight_effect (Some s) jd h = Inr (Some s')"
    show "highlight_effect (Some s') jd h = Inr (Some s')"
    proof (cases jd)
      case None
      with eff show ?thesis
        by (simp add: highlight_effect_def)
    next
      case (Some d')
      with eff show ?thesis
        by (simp add: highlight_idempotent_aux)
    qed
  qed
  have neutral: "highlight_effect (Some s) (Some d) None = Inr (Some (reset_defaults s))"
    by (simp add: highlight_effect_def)
  have look: "\<forall>e \<in> set (reset_defaults s).
         (tag e = Circle \<longrightarrow> opacity e = Some 1)
       \<and> (tag e = Line \<longrightarrow> stroke_opacity e = Some 0.6 \<and> stroke e = Some ''#999'')"
    using reset_defaults_look by blast
  have restore: "render_focus d h = Inr (Some s') \<longrightarrow>
         highlight_effect (Some s') (Some d) None = render_focus d None"
    using neutral_restores_drawn by blast
  from idem neutral look restore show ?thesis
    by (intro conjI)
qed

theorem highlight_idempotent_resettable_witness:
  "highlight_effect (Some single_edge_scene) (Some single_edge_payload) (Some ''0xbbb'')
     = Inr (Some single_edge_focused)
   \<and> highlight_effect (Some single_edge_focused) (Some single_edge_payload) (Some ''0xbbb'')
     = Inr (Some single_edge_focused)
   \<and> render_focus single_edge_payload (Some ''0xbbb'') = Inr (Some single_edge_focused)
   \<and> highlight_effect (Some single_edge_focused) (Some single_edge_payload) None
     = render_focus single_edge_payload None
   \<and> node_opacities (render_focus single_edge_payload None) = Some [Some 1, Some 1]"
proof -
  have once: "highlight_effect (Some single_edge_scene) (Some single_edge_payload) (Some ''0xbbb'')
                = Inr (Some single_edge_focused)"
    by (simp add: highlight_focus_eq single_edge_scene_def single_edge_focused_def
          no_throw_scene_of)
  have drawn: "render_focus single_edge_payload (Some ''0xbbb'') = Inr (Some single_edge_focused)"
    by (simp add: render_focus_eq single_edge_scene_def single_edge_focused_def)
  have neutral: "node_opacities (render_focus single_edge_payload None) = Some [Some 1, Some 1]"
    by (simp add: render_neutral_eq node_opacities_def observe_def node_circles_map
          node_circles_scene_of build_nodes_single_edge reset_elem_def node_el_def plain_def)
  from highlight_idempotent_resettable
         [of single_edge_scene "Some single_edge_payload" "Some ''0xbbb''" single_edge_focused
             single_edge_payload]
       once drawn neutral
  show ?thesis
    by simp
qed

text \<open>
  C8. A payload with an empty edge list is drawn without error: no link, no node, a
  scene of the background and the empty layers only, and the overlay with the
  no-dependencies message is shown.
\<close>

theorem empty_edges_valid:
  "edges d = Some [] \<Longrightarrow>
     build_links d = [] \<and> build_nodes d = []
   \<and> draw_scene d = Inr [plain Rect, plain G, link_layer, flow_dots_layer, node_layer, plain G]
   \<and> shows_empty_message (Some d)"
  by (simp add: draw_scene_eq build_nodes_def build_links_def build_nodeSet_def edges_or_empty_def
        scene_of_def shows_empty_message_def)

theorem empty_edges_valid_witness:
  "edges \<lparr>address = ''0xAAA'', edges = Some []\<rparr> = Some []
   \<and> build_links \<lparr>address = ''0xAAA'', edges = Some []\<rparr> = []
   \<and> build_nodes \<lparr>address = ''0xAAA'', edges = Some []\<rparr> = []
   \<and> draw_scene \<lparr>address = ''0xAAA'', edges = Some []\<rparr>
       = Inr [plain Rect, plain G, link_layer, flow_dots_layer, node_layer, plain G]
   \<and> shows_empty_message (Some \<lparr>address = ''0xAAA'', edges = Some []\<rparr>)"
proof -
  have e: "edges \<lparr>address = ''0xAAA'', edges = Some []\<rparr> = Some []"
    by simp
  from empty_edges_valid [OF e] e show ?thesis
    by simp
qed

section \<open>Hover enrichment\<close>

lemma settle_keeps_id: "is_settle ev \<Longrightarrow> hoveredNodeId (hover_step s ev) = hoveredNodeId s"
  by (cases ev) (simp_all add: is_settle_def)

lemma settles_keep_id:
  "\<forall>ev \<in> set evs. is_settle ev \<Longrightarrow> hoveredNodeId (hover_run s evs) = hoveredNodeId s"
  unfolding hover_run_def
  by (induction evs arbitrary: s) (simp_all add: settle_keeps_id)

lemma apply_outcome_field: "field_of k (apply_outcome k out prev) = Some (stored out)"
  by (cases k; cases out) simp_all

lemma apply_outcome_other:
  "field_of (other_lookup k) (apply_outcome k out prev) = field_of (other_lookup k) (spread prev)"
  by (cases k; cases out) simp_all

lemma apply_outcome_error:
  "error (apply_outcome k Rejected prev) = Some True"
  "error (apply_outcome k (Body v) prev) = error (spread prev)"
  by (cases k; simp)+

lemma hover_card_None_id: "hoveredNodeId s = None \<Longrightarrow> hover_card s = None"
  by (simp add: hover_card_def)

lemma hover_card_Some:
  "hover_card s \<noteq> None \<Longrightarrow> hoveredNodeId s \<noteq> None \<and> hoveredNodeInfo s \<noteq> None"
  by (auto simp: hover_card_def split: option.splits if_splits)

text \<open>
  C10. The mouseout handler sets the hovered id and the hover info to null; the card is
  rendered only when both are set; and whatever lookups settle after mouseout, in any
  number and order, no card is rendered, although they can repopulate the hover info.
\<close>

theorem hover_card_only_while_hovered:
  "hoveredNodeId (hover_step s MouseOut) = None
   \<and> hoveredNodeInfo (hover_step s MouseOut) = None
   \<and> (hover_card s \<noteq> None \<longrightarrow> hoveredNodeId s \<noteq> None \<and> hoveredNodeInfo s \<noteq> None)
   \<and> ((\<forall>ev \<in> set evs. is_settle ev) \<longrightarrow>
         hover_card (hover_run (hover_step s MouseOut) evs) = None)"
proof -
  have out: "hoveredNodeId (hover_step s MouseOut) = None"
            "hoveredNodeInfo (hover_step s MouseOut) = None"
    by simp_all
  have card: "hover_card s \<noteq> None \<longrightarrow> hoveredNodeId s \<noteq> None \<and> hoveredNodeInfo s \<noteq> None"
    using hover_card_Some by blast
  have late: "(\<forall>ev \<in> set evs. is_settle ev) \<longrightarrow>
                hover_card (hover_run (hover_step s MouseOut) evs) = None"
  proof
    assume "\<forall>ev \<in> set evs. is_settle ev"
    then have "hoveredNodeId (hover_run (hover_step s MouseOut) evs)
                 = hoveredNodeId (hover_step s MouseOut)"
      by (rule settles_keep_id)
    then show "hover_card (hover_run (hover_step s MouseOut) evs) = None"
      by (simp add: hover_card_None_id)
  qed
  from out card late show ?thesis
    by (intro conjI)
qed

lemma hovering_0xA_eq:
  "hovering_0xA =
     \<lparr>hoveredNodeId = Some ''0xA'', hoveredNodeInfo = Some empty_info, dragging = False,
      in_flight = [(''0xA'', Balance), (''0xA'', Company)]\<rparr>"
  by (simp add: hovering_0xA_def initial_hover_def)

theorem hover_card_only_while_hovered_witness:
  "hover_card hovering_0xA = Some (''0xA'', Loading)
   \<and> hoveredNodeId hovering_0xA \<noteq> None
   \<and> is_settle (Settle ''0xA'' Company (Body (JString ''Acme'')))
   \<and> hoveredNodeInfo (hover_run (hover_step hovering_0xA MouseOut)
                          [Settle ''0xA'' Company (Body (JString ''Acme''))])
       = Some \<lparr>balance = None, company = Some (JString ''Acme''), error = None\<rparr>
   \<and> hover_card (hover_run (hover_step hovering_0xA MouseOut)
                     [Settle ''0xA'' Company (Body (JString ''Acme''))]) = None"
proof -
  let ?evs = "[Settle ''0xA'' Company (Body (JString ''Acme''))]"
  have card: "hover_card hovering_0xA = Some (''0xA'', Loading)"
    by (simp add: hovering_0xA_eq hover_card_def card_body_of_def empty_info_def no_keys_def)
  have settle: "is_settle (Settle ''0xA'' Company (Body (JString ''Acme'')))"
    by (simp add: is_settle_def)
  then have settles: "\<forall>ev \<in> set ?evs. is_settle ev"
    by simp
  have info: "hoveredNodeInfo (hover_run (hover_step hovering_0xA MouseOut) ?evs)
                = Some \<lparr>balance = None, company = Some (JString ''Acme''), error = None\<rparr>"
    by (simp add: hovering_0xA_eq hover_run_def spread_def empty_info_def)
  from hover_card_only_while_hovered [of hovering_0xA ?evs] card settles
  have "hoveredNodeId hovering_0xA \<noteq> None
        \<and> hover_card (hover_run (hover_step hovering_0xA MouseOut) ?evs) = None"
    by simp
  with card settle info show ?thesis
    by simp
qed




text \<open>
  C5, as the claim states it, fails: after the balance lookup failed and the company
  lookup succeeded, the card shows the fixed values \<open>500\<close> and \<open>CCinc\<close>, not the
  company that was found and not an unavailable state.
\<close>

theorem failed_lookup_placeholders_counterexample:
  "hover_card (hover_run initial_hover
      [MouseOver ''0xA'', Settle ''0xA'' Balance Rejected,
       Settle ''0xA'' Company (Body (JString ''Acme''))])
   = Some (''0xA'', Placeholders ''500'' ''CCinc'')"
  by (simp add: hover_run_def initial_hover_def hover_card_def card_body_of_def spread_def
        empty_info_def no_keys_def)

lemma lookup_chain_cases:
  "lookup_chain RequestFailed = Fulfilled (Apply Rejected)"
  "lookup_chain (Response Unparsable) = Fulfilled (Apply Rejected)"
  "lookup_chain (Response NullBody) = Fulfilled Throwing"
  "lookup_chain (Response (ObjectBody v)) = Fulfilled (Apply (Body v))"
  by (simp_all add: lookup_chain_def on_error_def)

lemma lookup_chain_fulfils: "lookup_chain r \<noteq> Broken"
proof (cases r)
  case RequestFailed
  then show ?thesis by (simp add: lookup_chain_cases)
next
  case (Response b)
  then show ?thesis by (cases b) (simp_all add: lookup_chain_cases)
qed

text \<open>
  A body that is the JSON value \<open>null\<close> does not reach the catch handler: the chain
  fulfils, and the updater it queued throws when React runs it.
\<close>

lemma null_body_update_throws:
  "lookup_chain (Response NullBody) = Fulfilled Throwing"
  "run_update k Throwing prev = Inl TypeError"
  by (simp_all add: lookup_chain_cases)

text \<open>
  C5, amended. Hovering issues the balance and the company lookup together, and each
  chain settles on its own. No chain ends rejected: a failed request and a body that is
  not JSON are recovered by the chain's own catch handler, which stores null in the
  lookup's own field and sets the error flag; a body with the field stores it in the
  lookup's own field; in both cases the other field keeps what it had. Once the error
  flag is set the card shows the fixed placeholder values \<open>500\<close> and \<open>CCinc\<close> for
  both fields; without it the card shows both stored values.
\<close>

theorem lookups_settle_independently:
  "(\<not> dragging s \<longrightarrow>
      in_flight (hover_step s (MouseOver i)) = in_flight s @ [(i, Balance), (i, Company)])
   \<and> lookup_chain r \<noteq> Broken
   \<and> (r = RequestFailed \<or> r = Response Unparsable \<longrightarrow>
        lookup_chain r = Fulfilled (Apply Rejected))
   \<and> lookup_chain (Response (ObjectBody v)) = Fulfilled (Apply (Body v))
   \<and> run_update k (Apply out) prev = Inr (apply_outcome k out prev)
   \<and> field_of k (apply_outcome k out prev) = Some (stored out)
   \<and> field_of (other_lookup k) (apply_outcome k out prev) = field_of (other_lookup k) (spread prev)
   \<and> error (apply_outcome k Rejected prev) = Some True
   \<and> (error info = Some True \<longrightarrow> card_body_of (Some info) = Placeholders ''500'' ''CCinc'')
   \<and> (error info \<noteq> Some True \<and> \<not> no_keys info \<longrightarrow>
        card_body_of (Some info) = Values (shown (balance info)) (shown (company info)))"
proof -
  have issued: "\<not> dragging s \<longrightarrow>
      in_flight (hover_step s (MouseOver i)) = in_flight s @ [(i, Balance), (i, Company)]"
    by simp
  have fulfils: "lookup_chain r \<noteq> Broken"
    by (rule lookup_chain_fulfils)
  have recovered: "r = RequestFailed \<or> r = Response Unparsable \<longrightarrow>
        lookup_chain r = Fulfilled (Apply Rejected)"
    by (auto simp: lookup_chain_cases)
  have found: "lookup_chain (Response (ObjectBody v)) = Fulfilled (Apply (Body v))"
    by (rule lookup_chain_cases)
  have runs: "run_update k (Apply out) prev = Inr (apply_outcome k out prev)"
    by simp
  have own: "field_of k (apply_outcome k out prev) = Some (stored out)"
    by (rule apply_outcome_field)
  have other: "field_of (other_lookup k) (apply_outcome k out prev)
                 = field_of (other_lookup k) (spread prev)"
    by (rule apply_outcome_other)
  have flag: "error (apply_outcome k Rejected prev) = Some True"
    by (rule apply_outcome_error)
  have bad: "error info = Some True \<longrightarrow> card_body_of (Some info) = Placeholders ''500'' ''CCinc''"
    by (simp add: card_body_of_def no_keys_def)
  have good: "error info \<noteq> Some True \<and> \<not> no_keys info \<longrightarrow>
        card_body_of (Some info) = Values (shown (balance info)) (shown (company info))"
    by (simp add: card_body_of_def)
  from issued fulfils recovered found runs own other flag bad good show ?thesis
    by (intro conjI)
qed

theorem lookups_settle_independently_witness:
  "\<not> dragging initial_hover
   \<and> in_flight (hover_step initial_hover (MouseOver ''0xA''))
       = [(''0xA'', Balance), (''0xA'', Company)]
   \<and> lookup_chain RequestFailed = Fulfilled (Apply Rejected)
   \<and> error \<lparr>balance = Some JNull, company = Some (JString ''Acme''), error = Some True\<rparr>
       = Some True
   \<and> card_body_of
         (Some \<lparr>balance = Some JNull, company = Some (JString ''Acme''), error = Some True\<rparr>)
       = Placeholders ''500'' ''CCinc''
   \<and> error \<lparr>balance = Some (JString ''1 ETH''), company = None, error = None\<rparr> \<noteq> Some True
   \<and> \<not> no_keys \<lparr>balance = Some (JString ''1 ETH''), company = None, error = None\<rparr>
   \<and> card_body_of (Some \<lparr>balance = Some (JString ''1 ETH''), company = None, error = None\<rparr>)
       = Values ''1 ETH'' []"
proof -
  let ?bad = "\<lparr>balance = Some JNull, company = Some (JString ''Acme''), error = Some True\<rparr>"
  let ?good = "\<lparr>balance = Some (JString ''1 ETH''), company = None, error = None\<rparr>"
  have nd: "\<not> dragging initial_hover"
    by (simp add: initial_hover_def)
  have fl: "in_flight initial_hover = []"
    by (simp add: initial_hover_def)
  have nk: "\<not> no_keys ?good"
    by (simp add: no_keys_def)
  from lookups_settle_independently
         [where s = initial_hover and i = "''0xA''" and r = RequestFailed and info = ?bad] nd fl
  have a: "in_flight (hover_step initial_hover (MouseOver ''0xA''))
             = [(''0xA'', Balance), (''0xA'', Company)]"
      and r: "lookup_chain RequestFailed = Fulfilled (Apply Rejected)"
      and b: "card_body_of (Some ?bad) = Placeholders ''500'' ''CCinc''"
    by simp_all
  from lookups_settle_independently [where info = ?good] nk
  have c: "card_body_of (Some ?good) = Values ''1 ETH'' []"
    by simp
  from nd a r b c nk show ?thesis
    by simp
qed

section \<open>Lifecycle\<close>

lemma detach_simps [simp]: "attached (detach x) = False" "phase (detach x) = phase x"
  by (simp_all add: detach_def)

lemma cleanup_refs:
  "simulationRef (cleanup s) = None" "\<not> svgSelection (cleanup s)" "\<not> gSelection (cleanup s)"
  "\<not> zoomBehavior (cleanup s)"
  by (simp_all add: cleanup_def Let_def split: option.splits)

lemma cleanup_sims:
  "sims (cleanup s) = (case simulationRef s of None \<Rightarrow> sims s | Some i \<Rightarrow> stop_sim i (sims s))"
  by (simp add: cleanup_def Let_def split: option.splits)

lemma cleanup_dots:
  "dots (cleanup s) = (if svgRef s then map detach (dots s) else dots s)"
  by (simp add: cleanup_def Let_def split: option.splits)

lemma cleanup_zoom_bound:
  "zoom_bound (cleanup s) = (if svgRef s then False else zoom_bound s)"
  by (simp add: cleanup_def Let_def split: option.splits)

text \<open>What the unmount does release: the simulation the ref holds, and the refs.\<close>

lemma unmount_stops_held:
  "simulationRef s = Some i \<Longrightarrow> \<not> enabled (unmount s) (Tick i cooled)"
  by (simp add: unmount_def cleanup_sims stop_sim_def)

lemma unmount_refs:
  "simulationRef (unmount s) = None" "\<not> svgSelection (unmount s)" "\<not> gSelection (unmount s)"
  "\<not> zoomBehavior (unmount s)"
  unfolding unmount_def by (rule cleanup_refs)+

text \<open>What it does not: no element leaves its parent and the zoom listeners stay.\<close>

lemma unmount_keeps_elements:
  "dots (unmount s) = dots s" "zoom_bound (unmount s) = zoom_bound s"
  by (simp_all add: unmount_def cleanup_dots cleanup_zoom_bound)

text \<open>
  A dot that is on its parent and has something scheduled always has a timer event
  due, and stays so whatever timer event runs: its loop never ends.
\<close>

lemma attached_dot_has_event:
  assumes "j < length (dots s)" and "phase (dots s ! j) \<noteq> Idle"
  shows "enabled s (TransitionEnd j) \<or> enabled s (TimeoutFires j)"
  using assms by (cases "phase (dots s ! j)") simp_all

lemma attached_dot_never_idle:
  assumes "j < length (dots s)" and "attached (dots s ! j)" and "phase (dots s ! j) \<noteq> Idle"
  shows "j < length (dots (fire s ev))"
    and "attached (dots (fire s ev) ! j)"
    and "phase (dots (fire s ev) ! j) \<noteq> Idle"
proof -
  show "j < length (dots (fire s ev))"
    using assms(1) by (cases ev) simp_all
  show "attached (dots (fire s ev) ! j)"
    using assms
    by (cases ev) (auto simp: nth_list_update transition_end_def animateDot_def split: phase.splits)
  show "phase (dots (fire s ev) ! j) \<noteq> Idle"
    using assms
    by (cases ev) (auto simp: nth_list_update transition_end_def animateDot_def split: phase.splits)
qed

lemma one_link_delay_eq:
  "one_link_delay =
     \<lparr>svgRef = True, graphDrawnRef = True, simulationRef = Some 0, svgSelection = True,
      gSelection = True, zoomBehavior = True, zoom_bound = True, sims = [True],
      dots = [\<lparr>attached = True, phase = Delay\<rparr>]\<rparr>"
  by (simp add: one_link_delay_def payload_effect_def drawGraph_def mounted_empty_def
        build_links_single_edge new_dot_def transition_end_def)

lemma unmount_one_link_delay:
  "unmount one_link_delay =
     \<lparr>svgRef = False, graphDrawnRef = True, simulationRef = None, svgSelection = False,
      gSelection = False, zoomBehavior = False, zoom_bound = True, sims = [False],
      dots = [\<lparr>attached = True, phase = Delay\<rparr>]\<rparr>"
  by (simp add: unmount_def one_link_delay_eq cleanup_def stop_sim_def)

text \<open>
  drawGraph overwrites \<open>simulationRef\<close> without stopping the simulation it held, so
  after a second payload the first simulation keeps ticking, also after unmount.
\<close>

lemma previous_simulator_keeps_ticking:
  "enabled
     (unmount (payload_effect (payload_effect mounted_empty (Some single_edge_payload))
                 (Some single_edge_payload)))
     (Tick 0 False)"
  by (simp add: payload_effect_def drawGraph_def mounted_empty_def unmount_def cleanup_def
        stop_sim_def)

text \<open>
  C2. The code does not do what the claim says. The single-edge graph is drawn, its dot
  has run one cycle and the restart delay is pending; the component unmounts. The svg
  ref is null when the cleanup runs, so nothing is removed: the dot is still on its
  parent and the zoom listeners are still bound. The restart timeout fires, the travel
  and the fade run, the end of the fade finds the parent and schedules the restart
  again: after three timer events the state is the one right after unmount, and so on
  without end.
\<close>

theorem unmount_leaves_animation_running:
  "dots (unmount one_link_delay) = [\<lparr>attached = True, phase = Delay\<rparr>]
   \<and> zoom_bound (unmount one_link_delay)
   \<and> enabled (unmount one_link_delay) (TimeoutFires 0)
   \<and> enabled (fire_all (unmount one_link_delay) [TimeoutFires 0]) (TransitionEnd 0)
   \<and> enabled (fire_all (unmount one_link_delay) [TimeoutFires 0, TransitionEnd 0])
         (TransitionEnd 0)
   \<and> fire_all (unmount one_link_delay) [TimeoutFires 0, TransitionEnd 0, TransitionEnd 0]
       = unmount one_link_delay"
  by (simp add: unmount_one_link_delay fire_all_def animateDot_def transition_end_def)

end
